theory Spec2Isabelle
  imports Complex_Main
begin

section \<open>Correction engine: logit-space correction and renormalisation\<close>

text \<open>
  \<^verbatim>\<open>predict_correction\<close> in \<^verbatim>\<open>app.py\<close> (lines 294-305) walks over the
  items of the request's \<^verbatim>\<open>current_probabilities\<close> dictionary, clips every
  probability to \<open>[0.01, 0.99]\<close>, adds the predicted correction to its logit, maps the
  result back through the logistic function and finally divides every value by the sum
  of all values.

  A Python dictionary is represented by the list of its items in insertion order. The
  numbers of the source are 64-bit floats. Finite arithmetic is idealised as exact
  arithmetic on real numbers (rounding is left out); what is kept of the floats is what
  changes the shape of a result (a result that merely rounds or underflows to a
  neighbouring float is represented by its exact value):
  \<^item> \<^verbatim>\<open>np.exp(x)\<close> is \<^verbatim>\<open>inf\<close> (with a warning, no exception) when \<open>x\<close> exceeds
    \<open>709.782712893384\<close>, the largest argument whose exponential is a finite float;
  \<^item> \<^verbatim>\<open>1 / (1 + inf)\<close> is \<open>0.0\<close>;
  \<^item> dividing by a total of \<open>0.0\<close> does not raise: \<^verbatim>\<open>0.0 / 0.0\<close> is NaN, and a
    non-zero value divided by \<open>0.0\<close> is an infinity.
  The correction is the finite number the model predicts.
\<close>

type_synonym probs = "(string \<times> real) list"

datatype npfloat = Finite real | PosInf | NegInf | NaN

type_synonym float_probs = "(string \<times> npfloat) list"

definition exp_overflow_threshold :: real where
  "exp_overflow_threshold = 709.782712893384"

definition np_exp :: "real \<Rightarrow> real option" where
  \<comment> \<open>\<open>None\<close> is \<^verbatim>\<open>inf\<close>\<close>
  "np_exp x = (if x > exp_overflow_threshold then None else Some (exp x))"

definition np_divide :: "real \<Rightarrow> real \<Rightarrow> npfloat" where
  "np_divide v denom =
     (if denom \<noteq> 0 then Finite (v / denom)
      else if v > 0 then PosInf
      else if v < 0 then NegInf
      else NaN)"

fun np_ge :: "npfloat \<Rightarrow> npfloat \<Rightarrow> bool" where
  \<comment> \<open>\<^verbatim>\<open>a >= b\<close> on floats: every comparison with NaN is false\<close>
  "np_ge NaN b = False"
| "np_ge a NaN = False"
| "np_ge PosInf b = True"
| "np_ge a NegInf = True"
| "np_ge (Finite a) (Finite b) = (b \<le> a)"
| "np_ge (Finite a) PosInf = False"
| "np_ge NegInf b = False"

definition clip :: "real \<Rightarrow> real" where
  "clip prob = max 0.01 (min 0.99 prob)"

definition corrected_prob :: "real \<Rightarrow> real \<Rightarrow> real" where
  "corrected_prob correction prob =
     (let prob = clip prob;
          logit = ln (prob / (1 - prob));
          corrected_logit = logit + correction
      in case np_exp (- corrected_logit) of
           None \<Rightarrow> 0
         | Some e \<Rightarrow> 1 / (1 + e))"

definition apply_correction :: "real \<Rightarrow> probs \<Rightarrow> probs" where
  "apply_correction correction current_probabilities =
     map (\<lambda>(outcome, prob). (outcome, corrected_prob correction prob)) current_probabilities"

definition normalize :: "probs \<Rightarrow> float_probs" where
  "normalize corrected =
     (let total = sum_list (map snd corrected)
      in map (\<lambda>(k, v). (k, np_divide v total)) corrected)"

definition logit_correction_step :: "real \<Rightarrow> probs \<Rightarrow> float_probs" where
  "logit_correction_step correction current_probabilities =
     normalize (apply_correction correction current_probabilities)"

text \<open>
  The exponential of an outcome overflows when the negated corrected logit of its
  clipped probability exceeds the threshold.
\<close>

definition exp_overflows :: "real \<Rightarrow> real \<Rightarrow> bool" where
  "exp_overflows correction prob \<longleftrightarrow>
     - (ln (clip prob / (1 - clip prob)) + correction) > exp_overflow_threshold"

text \<open>
  A correction overflows for no outcome of a mapping, or not for all of them at once.
\<close>

definition no_overflow :: "real \<Rightarrow> probs \<Rightarrow> bool" where
  "no_overflow correction ps \<longleftrightarrow> list_all (\<lambda>kv. \<not> exp_overflows correction (snd kv)) ps"

definition some_outcome_finite :: "real \<Rightarrow> probs \<Rightarrow> bool" where
  "some_outcome_finite correction ps \<longleftrightarrow> list_ex (\<lambda>kv. \<not> exp_overflows correction (snd kv)) ps"

definition as_floats :: "probs \<Rightarrow> float_probs" where
  \<comment> \<open>the request's finite probabilities, as the response carries them\<close>
  "as_floats ps = map (\<lambda>(k, v). (k, Finite v)) ps"

section \<open>Serving: request and response models\<close>

text \<open>
  The request and response classes of \<^verbatim>\<open>app.py\<close>. Where two classes of the source
  share a field name, one of the two records carries a prefix: \<open>confidence\<close> of
  \<^verbatim>\<open>PostFeatures\<close> is \<open>score_confidence\<close>, \<open>model_version\<close> of
  \<^verbatim>\<open>PostUsefulnessResponse\<close> is \<open>usefulness_model_version\<close>, and \<open>prob_before\<close> of
  \<^verbatim>\<open>PostUsefulnessRequest\<close> is \<open>request_prob_before\<close>.
\<close>

record PostFeatures =
  relevance :: real
  stance :: real
  strength :: real
  credibility :: real
  score_confidence :: real
  log_followers :: real
  author_verified :: bool

definition default_PostFeatures :: PostFeatures where
  "default_PostFeatures =
     \<lparr>relevance = 0, stance = 0, strength = 0, credibility = 0, score_confidence = 0,
      log_followers = 0, author_verified = False\<rparr>"

record MarketFeatures =
  K :: int
  duration_days :: real
  avg_posts_per_hour :: real
  topic :: "string option"

definition default_MarketFeatures :: MarketFeatures where
  "default_MarketFeatures = \<lparr>K = 2, duration_days = 0, avg_posts_per_hour = 0, topic = None\<rparr>"

record RecentSummary =
  Wbatch :: real
  last_hour_delta :: real
  top_post_features :: "PostFeatures list"

record CorrectionRequest =
  market_id :: string
  current_probabilities :: probs
  market_features :: MarketFeatures
  recent_summary :: RecentSummary

record CorrectionResponse =
  probabilities_corrected :: float_probs
  model_version :: string
  confidence :: real
  explain :: "(string \<times> real) list"

record PostUsefulnessRequest =
  post_features :: PostFeatures
  market_context :: MarketFeatures
  request_prob_before :: real

record PostUsefulnessResponse =
  usefulness_score :: real
  move_toward_truth_prob :: real
  usefulness_model_version :: string

text \<open>
  Exceptions are values. \<open>ValidationError\<close> is what the constructor of a response class
  raises and carries the names of the offending entries; \<open>ModelError\<close> carries the
  message of an exception raised inside the boosted-tree library; \<open>IndexError\<close> is
  raised by \<^verbatim>\<open>model.predict(X)[0]\<close> on an empty prediction array.
\<close>

datatype error = ValidationError "string list" | ModelError string | IndexError

fun str_of_error :: "error \<Rightarrow> string" where
  "str_of_error (ValidationError ks) = ''validation error for CorrectionResponse''"
| "str_of_error (ModelError msg) = msg"
| "str_of_error IndexError = ''index 0 is out of bounds for axis 0 with size 0''"

text \<open>
  \<^verbatim>\<open>CorrectionResponse\<close> declares \<^verbatim>\<open>explain: Dict[str, float]\<close> (line 64), and
  the constructor of a response class validates every field against its declared type.
  The values handed to \<^verbatim>\<open>explain\<close> at the three call sites are floats (the feature
  importances) or strings (the two diagnostic messages), so a value is a \<open>pyval\<close>. A
  float is accepted as it is; a string is accepted only when the validator can read it as
  a number. That reading is the parameter \<open>coerce\<close>; \<open>strict_mode\<close> is the validator
  that reads no string as a number.
\<close>

datatype pyval = PyFloat real | PyStr string

type_synonym coercion = "string \<Rightarrow> real option"

definition strict_mode :: coercion where
  "strict_mode s = None"

fun validate_float :: "coercion \<Rightarrow> pyval \<Rightarrow> real option" where
  "validate_float coerce (PyFloat x) = Some x"
| "validate_float coerce (PyStr s) = coerce s"

definition new_CorrectionResponse ::
  "coercion \<Rightarrow> float_probs \<Rightarrow> string \<Rightarrow> real \<Rightarrow> (string \<times> pyval) list
     \<Rightarrow> error + CorrectionResponse" where
  "new_CorrectionResponse coerce probs version conf expl =
     (let bad = map fst (filter (\<lambda>(k, v). validate_float coerce v = None) expl)
      in if bad \<noteq> [] then Inl (ValidationError bad)
         else Inr \<lparr>probabilities_corrected = probs, model_version = version, confidence = conf,
                   explain = List.map_filter
                     (\<lambda>(k, v). map_option (\<lambda>x. (k, x)) (validate_float coerce v)) expl\<rparr>)"

text \<open>
  The boosted-tree model is an external capability: the names of the features it was
  trained on, a prediction for a list of rows (which may raise), and one gain importance
  per feature. \<^verbatim>\<open>load_model\<close> and \<^verbatim>\<open>get_deployed_model\<close> return a dictionary
  with the entries \<^verbatim>\<open>"model"\<close> and \<^verbatim>\<open>"version"\<close> (the fields \<open>info_model\<close> and
  \<open>info_version\<close>), or \<^verbatim>\<open>None\<close>.
\<close>

record Booster =
  feature_name :: "string list"
  predict :: "real list list \<Rightarrow> string + real list"
  feature_importance :: "real list"
  best_iteration :: nat

record ModelInfo =
  info_model :: Booster
  info_version :: string

definition resolve_model :: "ModelInfo option \<Rightarrow> ModelInfo option \<Rightarrow> ModelInfo option" where
  \<comment> \<open>\<^verbatim>\<open>get_deployed_model(name) or load_model(name)\<close>\<close>
  "resolve_model deployed local = (case deployed of Some info \<Rightarrow> Some info | None \<Rightarrow> local)"

section \<open>Serving: the correction endpoint\<close>

definition np_mean :: "real list \<Rightarrow> real" where
  "np_mean xs = sum_list xs / real (length xs)"

definition correction_features :: "CorrectionRequest \<Rightarrow> (string \<times> real) list" where
  "correction_features request =
     [(''K'', of_int (K (market_features request))),
      (''duration_days'', duration_days (market_features request)),
      (''posts_per_hour'', avg_posts_per_hour (market_features request)),
      (''Wbatch'', Wbatch (recent_summary request)),
      (''last_hour_delta'', last_hour_delta (recent_summary request))]
     @ (let posts = top_post_features (recent_summary request)
        in if posts \<noteq> [] then
             [(''mean_relevance'', np_mean (map relevance posts)),
              (''mean_strength'', np_mean (map strength posts)),
              (''mean_credibility'', np_mean (map credibility posts)),
              (''mean_stance'', np_mean (map stance posts))]
           else [])"

definition align_columns :: "string list \<Rightarrow> (string \<times> real) list \<Rightarrow> real list" where
  \<comment> \<open>a column the model expects and the row lacks is \<open>0\<close>; other columns are dropped\<close>
  "align_columns cols features =
     map (\<lambda>col. case map_of features col of Some v \<Rightarrow> v | None \<Rightarrow> 0) cols"

definition top_importances :: "Booster \<Rightarrow> (string \<times> real) list" where
  \<comment> \<open>\<^verbatim>\<open>sorted(zip(names, importances), key=..., reverse=True)[:5]\<close>; the sort is stable\<close>
  "top_importances m =
     take 5 (rev (sort_key snd (rev (zip (feature_name m) (feature_importance m)))))"

definition correction_try_body ::
  "coercion \<Rightarrow> ModelInfo \<Rightarrow> CorrectionRequest \<Rightarrow> error + CorrectionResponse" where
  "correction_try_body coerce info request =
     (let features = correction_features request;
          X = align_columns (feature_name (info_model info)) features
      in case predict (info_model info) [X] of
           Inl msg \<Rightarrow> Inl (ModelError msg)
         | Inr [] \<Rightarrow> Inl IndexError
         | Inr (correction # _) \<Rightarrow>
             (let corrected = logit_correction_step correction (current_probabilities request);
                  expl = top_importances (info_model info)
              in new_CorrectionResponse coerce corrected (info_version info) 0.8
                   (map (\<lambda>(k, v). (k, PyFloat v)) expl)))"

definition predict_correction ::
  "coercion \<Rightarrow> ModelInfo option \<Rightarrow> CorrectionRequest \<Rightarrow> error + CorrectionResponse" where
  "predict_correction coerce model_info request =
     (case model_info of
        None \<Rightarrow>
          new_CorrectionResponse coerce (as_floats (current_probabilities request)) ''none'' 0
            [(''message'', PyStr ''No model available yet'')]
      | Some info \<Rightarrow>
          (case correction_try_body coerce info request of
             Inr response \<Rightarrow> Inr response
           | Inl e \<Rightarrow>
               new_CorrectionResponse coerce (as_floats (current_probabilities request))
                 (info_version info) 0
                 [(''error'', PyStr (str_of_error e))]))"

section \<open>Serving: the post usefulness endpoint\<close>

text \<open>
  \<^verbatim>\<open>prepare_post_features\<close> of \<^verbatim>\<open>features.py\<close> reads a post dictionary with
  defaults. Booleans are the numbers \<open>0\<close> and \<open>1\<close>, as \<^verbatim>\<open>int(...)\<close> makes them.
\<close>

definition dict_get :: "(string \<times> real) list \<Rightarrow> string \<Rightarrow> real \<Rightarrow> real" where
  "dict_get d k dflt = (case map_of d k of Some v \<Rightarrow> v | None \<Rightarrow> dflt)"

definition py_int :: "real \<Rightarrow> real" where
  \<comment> \<open>\<^verbatim>\<open>int(x)\<close> truncates towards zero\<close>
  "py_int x = of_int (if 0 \<le> x then \<lfloor>x\<rfloor> else \<lceil>x\<rceil>)"

definition bool_num :: "bool \<Rightarrow> real" where
  "bool_num b = (if b then 1 else 0)"

definition prepare_post_features :: "(string \<times> real) list \<Rightarrow> (string \<times> real) list" where
  "prepare_post_features post =
     (let f_stance = dict_get post ''stance'' 0;
          f_strength = dict_get post ''strength'' 0;
          f_credibility = dict_get post ''credibility'' 0;
          f_signed_signal = dict_get post ''signed_signal'' 0;
          f_log_followers = dict_get post ''log_followers'' 0;
          f_log_likes = dict_get post ''log_likes'' 0;
          f_log_reposts = dict_get post ''log_reposts'' 0;
          f_log_replies = dict_get post ''log_replies'' 0;
          f_log_quotes = dict_get post ''log_quotes'' 0;
          f_hours = dict_get post ''hours_before_resolution'' 0;
          f_prob_before = dict_get post ''prob_before'' 0.5
      in [(''relevance'', dict_get post ''relevance'' 0),
          (''stance'', f_stance),
          (''strength'', f_strength),
          (''credibility'', f_credibility),
          (''confidence'', dict_get post ''confidence'' 0),
          (''semantic_strength'', dict_get post ''semantic_strength'' 0),
          (''abs_stance'', \<bar>f_stance\<bar>),
          (''signed_signal'', f_signed_signal),
          (''log_followers'', f_log_followers),
          (''author_verified'', py_int (dict_get post ''author_verified'' 0)),
          (''log_likes'', f_log_likes),
          (''log_reposts'', f_log_reposts),
          (''log_replies'', f_log_replies),
          (''log_quotes'', f_log_quotes),
          (''total_log_engagement'', f_log_likes + f_log_reposts + f_log_replies + f_log_quotes),
          (''text_length'', dict_get post ''text_length'' 0),
          (''has_url'', py_int (dict_get post ''has_url'' 0)),
          (''has_hashtag'', py_int (dict_get post ''has_hashtag'' 0)),
          (''has_mention'', py_int (dict_get post ''has_mention'' 0)),
          (''has_numeric'', py_int (dict_get post ''has_numeric'' 0)),
          (''is_sarcasm'', py_int (dict_get post ''is_sarcasm'' 0)),
          (''is_question'', py_int (dict_get post ''is_question'' 0)),
          (''is_rumor'', py_int (dict_get post ''is_rumor'' 0)),
          (''hours_before_resolution'', f_hours),
          (''is_recent'', bool_num (f_hours \<le> 24)),
          (''stance_x_followers'', f_stance * f_log_followers),
          (''strength_x_credibility'', f_strength * f_credibility),
          (''signal_x_followers'', f_signed_signal * f_log_followers),
          (''prob_before'', f_prob_before),
          (''prob_uncertainty'', 1 - \<bar>f_prob_before - 0.5\<bar> * 2)])"

definition get_post_feature_names :: "string list" where
  "get_post_feature_names =
     [''relevance'', ''stance'', ''strength'', ''credibility'', ''confidence'',
      ''semantic_strength'', ''abs_stance'', ''signed_signal'',
      ''log_followers'', ''author_verified'',
      ''log_likes'', ''log_reposts'', ''log_replies'', ''log_quotes'', ''total_log_engagement'',
      ''text_length'', ''has_url'', ''has_hashtag'', ''has_mention'', ''has_numeric'',
      ''is_sarcasm'', ''is_question'', ''is_rumor'',
      ''hours_before_resolution'', ''is_recent'',
      ''stance_x_followers'', ''strength_x_credibility'', ''signal_x_followers'',
      ''prob_before'', ''prob_uncertainty'']"

datatype usefulness_error = KeyError string | PredictError string | EmptyPrediction

fun select_columns :: "string list \<Rightarrow> (string \<times> real) list \<Rightarrow> usefulness_error + real list" where
  \<comment> \<open>\<^verbatim>\<open>pd.DataFrame([features])[feature_names]\<close>: a missing column raises\<close>
  "select_columns [] features = Inr []"
| "select_columns (col # cols) features =
     (case map_of features col of
        None \<Rightarrow> Inl (KeyError col)
      | Some v \<Rightarrow> (case select_columns cols features of
                     Inl e \<Rightarrow> Inl e
                   | Inr vs \<Rightarrow> Inr (v # vs)))"

definition usefulness_try_body :: "ModelInfo \<Rightarrow> PostUsefulnessRequest \<Rightarrow> usefulness_error + real" where
  "usefulness_try_body info request =
     (let pf = post_features request;
          features = prepare_post_features
            [(''relevance'', relevance pf),
             (''stance'', stance pf),
             (''strength'', strength pf),
             (''credibility'', credibility pf),
             (''confidence'', score_confidence pf),
             (''log_followers'', log_followers pf),
             (''author_verified'', bool_num (author_verified pf)),
             (''prob_before'', request_prob_before request)]
      in case select_columns get_post_feature_names features of
           Inl e \<Rightarrow> Inl e
         | Inr X \<Rightarrow>
             (case predict (info_model info) [X] of
                Inl msg \<Rightarrow> Inl (PredictError msg)
              | Inr [] \<Rightarrow> Inl EmptyPrediction
              | Inr (prob # _) \<Rightarrow> Inr prob))"

definition predict_post_usefulness ::
  "ModelInfo option \<Rightarrow> PostUsefulnessRequest \<Rightarrow> PostUsefulnessResponse" where
  "predict_post_usefulness model_info request =
     (case model_info of
        None \<Rightarrow>
          (let semantic = relevance (post_features request) * strength (post_features request)
                 * credibility (post_features request)
           in \<lparr>usefulness_score = semantic, move_toward_truth_prob = 0.5,
               usefulness_model_version = ''heuristic''\<rparr>)
      | Some info \<Rightarrow>
          (case usefulness_try_body info request of
             Inr prob \<Rightarrow>
               \<lparr>usefulness_score = prob, move_toward_truth_prob = prob,
                usefulness_model_version = info_version info\<rparr>
           | Inl e \<Rightarrow>
               \<lparr>usefulness_score = 0.5, move_toward_truth_prob = 0.5,
                usefulness_model_version = info_version info\<rparr>))"

section \<open>Label construction\<close>

text \<open>
  \<^verbatim>\<open>label_posts_with_truth\<close> of \<^verbatim>\<open>etl.py\<close>. A data frame is the list of its rows.
  A snapshot row has a timestamp and the probability dictionary of that instant; a post
  row has its scoring timestamp and the rest of its columns. The scoring timestamp is
  \<open>None\<close> when the cell is \<^verbatim>\<open>None\<close> or empty (false in the condition
  \<^verbatim>\<open>if scored_at\<close>), and otherwise the value that the source compares with the
  snapshot timestamps. The source compares timestamps as strings; any linear order
  stands for that comparison here.

  \<^verbatim>\<open>sort_values\<close> belongs to the data-frame library and is not a stable sort: rows
  with equal keys may come out in any order. The two calls are therefore parameters of
  the model, \<open>sort_posts\<close> for \<^verbatim>\<open>posts_df.sort_values("scored_at")\<close> (the identity when
  the frame has no such column) and \<open>sort_snapshots\<close> for
  \<^verbatim>\<open>snapshots_df.sort_values("timestamp")\<close>. What is known of them is stated by
  \<open>is_reordering\<close> (the rows are kept) and \<open>is_sort_values\<close> (the rows are kept and come
  out in ascending order of the key).
\<close>

record 't Snapshot =
  timestamp :: 't
  probabilities :: probs

record ('t, 'a) Post =
  scored_at :: "'t option"
  other_columns :: 'a

record Labels =
  prob_before :: real
  prob_after :: real
  delta_prob :: real
  moved_toward_truth :: bool

record ('t, 'a) LabeledPost =
  post :: "('t, 'a) Post"
  labels :: "Labels option"

definition is_reordering :: "('a list \<Rightarrow> 'a list) \<Rightarrow> bool" where
  "is_reordering srt \<longleftrightarrow> (\<forall>xs. set (srt xs) = set xs \<and> length (srt xs) = length xs)"

definition is_sort_values :: "('a \<Rightarrow> 'k::linorder) \<Rightarrow> ('a list \<Rightarrow> 'a list) \<Rightarrow> bool" where
  "is_sort_values key srt \<longleftrightarrow>
     (\<forall>xs. set (srt xs) = set xs \<and> length (srt xs) = length xs \<and> sorted (map key (srt xs)))"

definition make_labels :: "real \<Rightarrow> real \<Rightarrow> Labels" where
  "make_labels pb pa =
     \<lparr>prob_before = pb, prob_after = pa, delta_prob = pa - pb,
      moved_toward_truth = (pa - pb > 0)\<rparr>"

definition label_row :: "string \<Rightarrow> ('t::linorder) Snapshot list \<Rightarrow> ('t, 'a) Post \<Rightarrow> Labels" where
  "label_row winning_outcome_id snapshots_df row =
     (case scored_at row of
        Some t \<Rightarrow>
          (let before_snaps = filter (\<lambda>s. timestamp s < t) snapshots_df;
               after_snaps = filter (\<lambda>s. timestamp s \<ge> t) snapshots_df;
               pb = (if before_snaps \<noteq> []
                     then dict_get (probabilities (last before_snaps)) winning_outcome_id 0.5
                     else 0.5);
               pa = (if after_snaps \<noteq> []
                     then dict_get (probabilities (hd after_snaps)) winning_outcome_id 0.5
                     else 0.5)
           in make_labels pb pa)
      | None \<Rightarrow> make_labels 0.5 0.5)"

definition label_posts_with_truth ::
  "(('t::linorder, 'a) Post list \<Rightarrow> ('t, 'a) Post list) \<Rightarrow> ('t Snapshot list \<Rightarrow> 't Snapshot list)
     \<Rightarrow> ('t, 'a) Post list \<Rightarrow> string \<Rightarrow> 't Snapshot list \<Rightarrow> ('t, 'a) LabeledPost list" where
  "label_posts_with_truth sort_posts sort_snapshots posts_df winning_outcome_id snapshots_df =
     (if posts_df = [] then []
      else
        (let posts = sort_posts posts_df
         in if snapshots_df \<noteq> [] then
              (let snaps = sort_snapshots snapshots_df
               in map (\<lambda>row. \<lparr>post = row, labels = Some (label_row winning_outcome_id snaps row)\<rparr>)
                    posts)
            else map (\<lambda>row. \<lparr>post = row, labels = None\<rparr>) posts))"

text \<open>
  The words of the specification. The winning-outcome probability of a snapshot is the
  entry of the winning outcome in its dictionary (the prior \<open>0.5\<close> when the dictionary
  has no such entry). A last snapshot strictly before a time is a snapshot before that
  time that no other snapshot before that time comes after; a first snapshot at-or-after
  a time is a snapshot not before that time that no other such snapshot precedes. When
  the timestamps of the sequence are pairwise distinct there is one such snapshot; among
  snapshots that share the timestamp, each of them is one.
\<close>

definition winning_prob :: "string \<Rightarrow> 't Snapshot \<Rightarrow> real" where
  "winning_prob w s = dict_get (probabilities s) w 0.5"

definition spec_prob_before :: "string \<Rightarrow> ('t::linorder) Snapshot list \<Rightarrow> 't \<Rightarrow> real \<Rightarrow> bool" where
  "spec_prob_before w snaps t p \<longleftrightarrow>
     (if \<exists>s \<in> set snaps. timestamp s < t
      then \<exists>s \<in> set snaps. timestamp s < t
             \<and> (\<forall>s' \<in> set snaps. timestamp s' < t \<longrightarrow> timestamp s' \<le> timestamp s)
             \<and> p = winning_prob w s
      else p = 0.5)"

definition spec_prob_after :: "string \<Rightarrow> ('t::linorder) Snapshot list \<Rightarrow> 't \<Rightarrow> real \<Rightarrow> bool" where
  "spec_prob_after w snaps t p \<longleftrightarrow>
     (if \<exists>s \<in> set snaps. t \<le> timestamp s
      then \<exists>s \<in> set snaps. t \<le> timestamp s
             \<and> (\<forall>s' \<in> set snaps. t \<le> timestamp s' \<longrightarrow> timestamp s \<le> timestamp s')
             \<and> p = winning_prob w s
      else p = 0.5)"

text \<open>
  For a sequence in strictly ascending order of timestamps the same, by position: the
  last snapshot strictly before a time is the one at the greatest position whose
  timestamp is before it, the first snapshot at-or-after a time the one at the least
  position whose timestamp is not before it.
\<close>

definition is_last_before :: "('t::linorder) Snapshot list \<Rightarrow> 't \<Rightarrow> nat \<Rightarrow> bool" where
  "is_last_before snaps t i \<longleftrightarrow>
     i < length snaps \<and> timestamp (snaps ! i) < t
     \<and> (\<forall>j \<in> {..<length snaps}. timestamp (snaps ! j) < t \<longrightarrow> j \<le> i)"

definition is_first_at_or_after :: "('t::linorder) Snapshot list \<Rightarrow> 't \<Rightarrow> nat \<Rightarrow> bool" where
  "is_first_at_or_after snaps t i \<longleftrightarrow>
     i < length snaps \<and> t \<le> timestamp (snaps ! i)
     \<and> (\<forall>j \<in> {..<length snaps}. t \<le> timestamp (snaps ! j) \<longrightarrow> i \<le> j)"

definition positional_prob_before ::
  "string \<Rightarrow> ('t::linorder) Snapshot list \<Rightarrow> 't \<Rightarrow> real \<Rightarrow> bool" where
  "positional_prob_before w snaps t p \<longleftrightarrow>
     (if \<exists>s \<in> set snaps. timestamp s < t
      then \<exists>i \<in> {..<length snaps}. is_last_before snaps t i \<and> p = winning_prob w (snaps ! i)
      else p = 0.5)"

definition positional_prob_after ::
  "string \<Rightarrow> ('t::linorder) Snapshot list \<Rightarrow> 't \<Rightarrow> real \<Rightarrow> bool" where
  "positional_prob_after w snaps t p \<longleftrightarrow>
     (if \<exists>s \<in> set snaps. t \<le> timestamp s
      then \<exists>i \<in> {..<length snaps}. is_first_at_or_after snaps t i \<and> p = winning_prob w (snaps ! i)
      else p = 0.5)"

section \<open>Feature extraction\<close>

text \<open>
  \<^verbatim>\<open>prepare_market_features\<close> of \<^verbatim>\<open>features.py\<close>. The post collection is a
  data frame, kept column by column: the number of rows, the \<^verbatim>\<open>market_id\<close> and
  \<^verbatim>\<open>author_id\<close> columns when present, and the numeric columns by name (booleans
  are \<open>0\<close> and \<open>1\<close>). A cell is \<open>None\<close> when the value is missing (NaN). A feature value
  is \<open>None\<close> when the library returns NaN. A frame is empty when it has no rows or no
  columns.

  A market is the dictionary of a market row. A timestamp cell of it holds no value
  (\<^verbatim>\<open>None\<close> or an empty string, which are false in a condition), the float NaN of a
  missing cell (which is true in a condition), or a value. \<^verbatim>\<open>pd.to_datetime\<close> is a
  parameter: it raises (\<open>None\<close>), or returns the missing time \<open>NaT\<close> or a time, which
  is a number of seconds and is either aware of a time zone or not. The difference of an
  aware and a naive time raises; a difference with \<open>NaT\<close> is \<open>NaT\<close>, whose
  \<^verbatim>\<open>total_seconds()\<close> is NaN.
\<close>

type_synonym cell = "real option"

record PostsFrame =
  n_rows :: nat
  market_id_col :: "string list option"
  author_id_col :: "string option list option"
  num_cols :: "(string \<times> cell list) list"

definition empty_frame :: PostsFrame where
  \<comment> \<open>\<^verbatim>\<open>pd.DataFrame()\<close>\<close>
  "empty_frame = \<lparr>n_rows = 0, market_id_col = None, author_id_col = None, num_cols = []\<rparr>"

definition frame_empty :: "PostsFrame \<Rightarrow> bool" where
  \<comment> \<open>\<^verbatim>\<open>posts_df.empty\<close>\<close>
  "frame_empty df \<longleftrightarrow>
     n_rows df = 0 \<or> (market_id_col df = None \<and> author_id_col df = None \<and> num_cols df = [])"

datatype 't stamp_cell = NoValue | NanValue | Value 't

record datetime =
  seconds :: real
  tz_aware :: bool

datatype parsed = NaT | At datetime

record 't Market =
  ident :: string
  created_at :: "'t stamp_cell"
  resolved_at :: "'t stamp_cell"
  resolved_outcome_id :: "string option"
  final_probabilities :: probs

type_synonym features = "(string \<times> real option) list"

definition dropna :: "'a option list \<Rightarrow> 'a list" where
  "dropna xs = concat (map (\<lambda>c. case c of None \<Rightarrow> [] | Some v \<Rightarrow> [v]) xs)"

definition values_mean :: "real list \<Rightarrow> real" where
  "values_mean vs = sum_list vs / real (length vs)"

definition values_std :: "nat \<Rightarrow> real list \<Rightarrow> real option" where
  \<comment> \<open>\<^verbatim>\<open>Series.std(ddof)\<close>: NaN when there are no more than \<open>ddof\<close> values\<close>
  "values_std ddof vs =
     (if length vs \<le> ddof then None
      else Some (sqrt (sum_list (map (\<lambda>x. (x - values_mean vs)\<^sup>2) vs) / real (length vs - ddof))))"

definition values_max :: "real list \<Rightarrow> real" where
  "values_max vs = fold max (tl vs) (hd vs)"

definition values_min :: "real list \<Rightarrow> real" where
  "values_min vs = fold min (tl vs) (hd vs)"

definition series_mean :: "cell list \<Rightarrow> real option" where
  \<comment> \<open>\<^verbatim>\<open>Series.mean()\<close> skips missing cells; NaN when nothing is left\<close>
  "series_mean xs = (let vs = dropna xs in if vs = [] then None else Some (values_mean vs))"

definition series_max :: "cell list \<Rightarrow> real option" where
  "series_max xs = (let vs = dropna xs in if vs = [] then None else Some (values_max vs))"

definition ratio :: "(real \<Rightarrow> bool) \<Rightarrow> real list \<Rightarrow> real" where
  \<comment> \<open>the mean of a boolean mask\<close>
  "ratio P vs = real (length (filter P vs)) / real (length vs)"

fun truthy :: "'t stamp_cell \<Rightarrow> bool" where
  "truthy NoValue = False"
| "truthy NanValue = True"
| "truthy (Value v) = True"

fun to_datetime_cell :: "('t \<Rightarrow> parsed option) \<Rightarrow> 't stamp_cell \<Rightarrow> parsed option" where
  "to_datetime_cell to_datetime (Value v) = to_datetime v"
| "to_datetime_cell to_datetime NanValue = Some NaT"
| "to_datetime_cell to_datetime NoValue = Some NaT"

fun total_seconds_between :: "parsed \<Rightarrow> parsed \<Rightarrow> real option option" where
  \<comment> \<open>\<^verbatim>\<open>(resolved - created).total_seconds()\<close>: \<open>None\<close> raises, \<open>Some None\<close> is NaN\<close>
  "total_seconds_between (At resolved) (At created) =
     (if tz_aware resolved = tz_aware created
      then Some (Some (seconds resolved - seconds created))
      else None)"
| "total_seconds_between resolved created = Some None"

definition duration_features :: "('t \<Rightarrow> parsed option) \<Rightarrow> 't Market \<Rightarrow> features" where
  "duration_features to_datetime market =
     (if truthy (created_at market) \<and> truthy (resolved_at market) then
        (case (to_datetime_cell to_datetime (created_at market),
               to_datetime_cell to_datetime (resolved_at market)) of
           (Some created, Some resolved) \<Rightarrow>
             (case total_seconds_between resolved created of
                Some (Some duration) \<Rightarrow>
                  [(''duration_hours'', Some (duration / 3600)),
                   (''duration_days'', Some (duration / 86400))]
              | Some None \<Rightarrow> [(''duration_hours'', None), (''duration_days'', None)]
              | None \<Rightarrow> [(''duration_hours'', Some 0), (''duration_days'', Some 0)])
         | _ \<Rightarrow> [(''duration_hours'', Some 0), (''duration_days'', Some 0)])
      else [])"

definition score_columns :: "string list" where
  "score_columns =
     [''relevance'', ''stance'', ''strength'', ''credibility'', ''confidence'',
      ''semantic_strength'']"

definition score_aggregates :: "PostsFrame \<Rightarrow> string \<Rightarrow> features" where
  "score_aggregates posts_df col =
     (case map_of (num_cols posts_df) col of
        None \<Rightarrow> []
      | Some xs \<Rightarrow>
          (let vals = dropna xs
           in if length vals > 0 then
                [(''mean_'' @ col, Some (values_mean vals)),
                 (''std_'' @ col, values_std 1 vals),
                 (''max_'' @ col, Some (values_max vals)),
                 (''min_'' @ col, Some (values_min vals))]
              else []))"

definition stance_distribution :: "PostsFrame \<Rightarrow> features" where
  "stance_distribution posts_df =
     (case map_of (num_cols posts_df) ''stance'' of
        None \<Rightarrow> []
      | Some xs \<Rightarrow>
          (let stance_vals = dropna xs
           in if length stance_vals > 0 then
                [(''stance_positive_ratio'', Some (ratio (\<lambda>v. v > 0) stance_vals)),
                 (''stance_negative_ratio'', Some (ratio (\<lambda>v. v < 0) stance_vals)),
                 (''stance_neutral_ratio'', Some (ratio (\<lambda>v. v = 0) stance_vals)),
                 (''mean_abs_stance'', Some (values_mean (map abs stance_vals)))]
              else []))"

definition value_counts :: "string option list \<Rightarrow> nat list" where
  \<comment> \<open>the counts of the distinct non-missing values, largest first\<close>
  "value_counts xs =
     (let vs = dropna xs
      in rev (sort (map (\<lambda>a. length (filter (\<lambda>b. b = a) vs)) (remdups vs))))"

definition author_diversity :: "PostsFrame \<Rightarrow> features" where
  "author_diversity posts_df =
     (case author_id_col posts_df of
        None \<Rightarrow> []
      | Some ids \<Rightarrow>
          (let author_counts = value_counts ids
           in (''num_unique_authors'', Some (real (length author_counts)))
              # (if length author_counts > 0 then
                   (let shares = map (\<lambda>c. real c / real (sum_list author_counts)) author_counts
                    in [(''author_hhi'', Some (sum_list (map (\<lambda>x. x\<^sup>2) shares))),
                        (''top_author_share'', Some (hd shares))])
                 else [])))"

definition mean_max_of :: "PostsFrame \<Rightarrow> string \<Rightarrow> features" where
  "mean_max_of posts_df col =
     (case map_of (num_cols posts_df) col of
        None \<Rightarrow> []
      | Some xs \<Rightarrow> [(''mean_'' @ col, series_mean xs), (''max_'' @ col, series_max xs)])"

definition mean_of :: "PostsFrame \<Rightarrow> string \<Rightarrow> string \<Rightarrow> features" where
  "mean_of posts_df col feature =
     (case map_of (num_cols posts_df) col of
        None \<Rightarrow> []
      | Some xs \<Rightarrow> [(feature, series_mean xs)])"

definition temporal_features :: "PostsFrame \<Rightarrow> features" where
  "temporal_features posts_df =
     (case map_of (num_cols posts_df) ''hours_before_resolution'' of
        None \<Rightarrow> []
      | Some xs \<Rightarrow>
          (let hbr = dropna xs
           in if length hbr > 0 then
                [(''mean_hours_before_resolution'', Some (values_mean hbr)),
                 (''min_hours_before_resolution'', Some (values_min hbr)),
                 (''recent_posts_ratio'', Some (ratio (\<lambda>v. v \<le> 24) hbr))]
              else []))"

definition label_distribution :: "PostsFrame \<Rightarrow> features" where
  "label_distribution posts_df =
     (case map_of (num_cols posts_df) ''moved_toward_truth'' of
        None \<Rightarrow> []
      | Some xs \<Rightarrow>
          (let mtt = dropna xs
           in if length mtt > 0 then [(''moved_toward_truth_ratio'', Some (values_mean mtt))]
              else []))"

definition posts_per_hour :: "features \<Rightarrow> real \<Rightarrow> real" where
  "posts_per_hour feats num_posts =
     (case map_of feats ''duration_hours'' of
        Some (Some h) \<Rightarrow> if h > 0 then num_posts / h else 0
      | _ \<Rightarrow> 0)"

definition prepare_market_features ::
  "('t \<Rightarrow> parsed option) \<Rightarrow> 't Market \<Rightarrow> PostsFrame \<Rightarrow> features" where
  "prepare_market_features to_datetime market posts_df =
     (let basic = (''K'', Some 2) # duration_features to_datetime market
      in if \<not> frame_empty posts_df then
           basic
           @ [(''num_posts'', Some (real (n_rows posts_df))),
              (''posts_per_hour'', Some (posts_per_hour basic (real (n_rows posts_df))))]
           @ concat (map (score_aggregates posts_df) score_columns)
           @ stance_distribution posts_df
           @ author_diversity posts_df
           @ mean_max_of posts_df ''log_followers''
           @ mean_of posts_df ''author_verified'' ''verified_ratio''
           @ concat (map (mean_max_of posts_df)
               [''log_likes'', ''log_reposts'', ''log_replies'', ''log_quotes''])
           @ concat (map (\<lambda>col. mean_of posts_df col (col @ ''_ratio''))
               [''is_sarcasm'', ''is_question'', ''is_rumor''])
           @ mean_of posts_df ''text_length'' ''mean_text_length''
           @ concat (map (\<lambda>col. mean_of posts_df col (col @ ''_ratio''))
               [''has_url'', ''has_hashtag'', ''has_mention'', ''has_numeric''])
           @ temporal_features posts_df
           @ label_distribution posts_df
         else
           basic @ [(''num_posts'', Some 0), (''posts_per_hour'', Some 0)])"

text \<open>
  The words of the specification for the aggregates of a column: the mean, the
  population standard deviation (divisor \<open>n\<close>), the sample standard deviation (divisor
  \<open>n - 1\<close>), the maximum and the minimum of a non-empty list of values.
\<close>

definition spec_mean :: "real list \<Rightarrow> real" where
  "spec_mean vs = (\<Sum>x\<leftarrow>vs. x) / real (length vs)"

definition population_std :: "real list \<Rightarrow> real" where
  "population_std vs = sqrt ((\<Sum>x\<leftarrow>vs. (x - spec_mean vs)\<^sup>2) / real (length vs))"

definition sample_std :: "real list \<Rightarrow> real" where
  "sample_std vs = sqrt ((\<Sum>x\<leftarrow>vs. (x - spec_mean vs)\<^sup>2) / (real (length vs) - 1))"

definition aggregate_names :: "string list" where
  \<comment> \<open>the per-column aggregate features of the scorable columns\<close>
  "aggregate_names =
     concat (map (\<lambda>col. [''mean_'' @ col, ''std_'' @ col, ''max_'' @ col, ''min_'' @ col])
       score_columns)"

section \<open>Training the correction model\<close>

text \<open>
  \<^verbatim>\<open>config.py\<close> and \<^verbatim>\<open>train_gbdt.py\<close>. The hyperparameter dictionary is a record;
  directories are path strings.
\<close>

record Params =
  num_rounds :: nat
  learning_rate :: real
  max_depth :: nat
  num_leaves :: nat
  early_stopping_rounds :: nat
  objective :: string
  metric :: string
  verbose :: int

record Config =
  data_dir :: string
  models_dir :: string
  reports_dir :: string
  min_resolved_markets_gbdt :: nat
  min_resolved_markets_nn :: nat
  retrain_trigger_new_markets :: nat
  gbdt_params :: Params

definition config :: Config where
  "config =
     \<lparr>data_dir = ''data'', models_dir = ''models'', reports_dir = ''reports'',
      min_resolved_markets_gbdt = 50, min_resolved_markets_nn = 300,
      retrain_trigger_new_markets = 30,
      gbdt_params =
        \<lparr>num_rounds = 3000, learning_rate = 0.03, max_depth = 8, num_leaves = 64,
         early_stopping_rounds = 50, objective = ''regression'', metric = ''rmse'',
         verbose = - 1\<rparr>\<rparr>"

definition path_join :: "string \<Rightarrow> string \<Rightarrow> string" where
  "path_join dir file = dir @ ''/'' @ file"

record FoldMetric =
  fold_index :: nat
  rmse :: real
  fold_best_iteration :: nat

text \<open>
  In \<open>Metrics\<close>, \<open>None\<close> stands for the floating-point values that are no real number:
  \<^verbatim>\<open>float("inf")\<close> for \<open>best_rmse\<close> (its initial value) and NaN for the mean and
  the standard deviation of an empty list.
\<close>

record Metrics =
  cv_folds :: "FoldMetric list"
  mean_rmse :: "real option"
  std_rmse :: "real option"
  best_rmse :: "real option"

record RegistryRow =
  row_model_id :: string
  row_name :: string
  row_version :: string
  row_type :: string
  row_path :: string
  row_train_size :: nat
  row_metrics :: Metrics
  row_feature_importances :: "(string \<times> real) list"
  row_hyperparameters :: Params
  approved :: bool
  deployed :: bool

record Report =
  report_model_id :: string
  report_version :: string
  trained_at :: string
  report_train_size :: nat
  report_metrics :: Metrics
  top_features :: "(string \<times> real) list"

datatype file_content = ModelFile Booster | ReportFile Report

datatype log_line =
    TrainingBanner
  | DataError string
  | RunEtlFirst
  | NotEnoughMarkets nat nat
  | WaitingForData
  | TrainingWith nat
  | FeatureCount nat
  | SampleCount nat
  | TopFeaturesHeader
  | TopFeature nat string real
  | SavedModel string
  | RegisteredModel string
  | RegisterWarning string
  | ReportSaved string
  | TrainingComplete

text \<open>
  The state the training job works on: the files of the artifact store and the report
  directory, the rows of the \<^verbatim>\<open>model_registry\<close> table, and what was printed.
\<close>

record World =
  files :: "string \<rightharpoonup> file_content"
  model_registry :: "RegistryRow list"
  printed :: "log_line list"

definition print :: "log_line \<Rightarrow> World \<Rightarrow> World" where
  "print line w = w\<lparr>printed := printed w @ [line]\<rparr>"

text \<open>
  A row of the market-level dataset: the features of the market, its targets and the
  two bookkeeping columns.
\<close>

record 't DatasetRow =
  row_features :: features
  target_error :: real
  brier :: real
  row_market_id :: string
  row_resolved_at :: "'t stamp_cell"

text \<open>
  What a run takes from outside: the identifier \<^verbatim>\<open>uuid.uuid4()\<close> returns, the clock,
  whether registering in the database raises (\<open>Some\<close> of the message; this covers
  \<^verbatim>\<open>get_supabase_client\<close> raising for missing credentials), the training files
  (\<open>None\<close> when \<^verbatim>\<open>resolved_markets.parquet\<close> does not exist), the timestamp parser,
  the data-frame library's \<^verbatim>\<open>dataset.sort_values("resolved_at")\<close>, the boosted-tree
  trainer and the time-series splitter (which raises when there are too few samples for
  the folds).
\<close>

record 't Env =
  uuid4 :: string
  now_stamp :: string
  now_iso :: string
  insert_error :: "string option"
  training_files :: "('t Market list \<times> PostsFrame) option"
  parse_datetime :: "'t \<Rightarrow> parsed option"
  sort_values_resolved_at :: "'t DatasetRow list \<Rightarrow> 't DatasetRow list"
  lgb_train :: "Params \<Rightarrow> real list list \<Rightarrow> real list \<Rightarrow> real list list \<Rightarrow> real list \<Rightarrow> Booster"
  tscv_split :: "nat \<Rightarrow> nat \<Rightarrow> string + (nat list \<times> nat list) list"

datatype train_error =
    KeyError_market_id
  | KeyError_target_error
  | SplitError string
  | IndexOutOfBounds
  | PredictFailed string
  | InconsistentLengths
  | NoBestModel

subsection \<open>The market-level dataset\<close>

definition select_rows :: "bool list \<Rightarrow> 'a list \<Rightarrow> 'a list" where
  "select_rows keep xs = map snd (filter fst (zip keep xs))"

definition posts_of_market :: "PostsFrame \<Rightarrow> string \<Rightarrow> train_error + PostsFrame" where
  \<comment> \<open>\<^verbatim>\<open>posts_df[posts_df["market_id"] == market_id] if not posts_df.empty else pd.DataFrame()\<close>\<close>
  "posts_of_market posts_df mid =
     (if frame_empty posts_df then Inr empty_frame
      else case market_id_col posts_df of
             None \<Rightarrow> Inl KeyError_market_id
           | Some ids \<Rightarrow>
               (let keep = map (\<lambda>m. m = mid) ids
                in Inr \<lparr>n_rows = length (filter id keep),
                        market_id_col = Some (select_rows keep ids),
                        author_id_col = map_option (select_rows keep) (author_id_col posts_df),
                        num_cols = map (\<lambda>(c, xs). (c, select_rows keep xs)) (num_cols posts_df)\<rparr>))"

definition market_row :: "('t \<Rightarrow> parsed option) \<Rightarrow> 't Market \<Rightarrow> PostsFrame \<Rightarrow> 't DatasetRow" where
  "market_row to_dt market market_posts =
     (let feats = prepare_market_features to_dt market market_posts;
          labelled = (case resolved_outcome_id market of
                        Some w \<Rightarrow> w \<noteq> [] \<and> final_probabilities market \<noteq> []
                      | None \<Rightarrow> False);
          final_prob = (case resolved_outcome_id market of
                          Some w \<Rightarrow> dict_get (final_probabilities market) w 0.5
                        | None \<Rightarrow> 0.5)
      in \<lparr>row_features = feats,
          target_error = (if labelled then 1 - final_prob else 0),
          brier = (if labelled then (1 - final_prob)\<^sup>2 else 0),
          row_market_id = ident market,
          row_resolved_at = resolved_at market\<rparr>)"

fun prepare_market_level_dataset ::
  "('t \<Rightarrow> parsed option) \<Rightarrow> 't Market list \<Rightarrow> PostsFrame \<Rightarrow> train_error + 't DatasetRow list" where
  "prepare_market_level_dataset to_dt [] posts_df = Inr []"
| "prepare_market_level_dataset to_dt (market # markets) posts_df =
     (case posts_of_market posts_df (ident market) of
        Inl e \<Rightarrow> Inl e
      | Inr market_posts \<Rightarrow>
          (case prepare_market_level_dataset to_dt markets posts_df of
             Inl e \<Rightarrow> Inl e
           | Inr rows \<Rightarrow> Inr (market_row to_dt market market_posts # rows)))"

definition dataset_feature_cols :: "'t DatasetRow list \<Rightarrow> string list" where
  \<comment> \<open>the columns of the frame in order of first appearance, without the four bookkeeping columns\<close>
  "dataset_feature_cols dataset =
     filter (\<lambda>col. col \<notin> set [''market_id'', ''resolved_at'', ''target_error'', ''brier''])
       (rev (remdups (rev (concat (map (\<lambda>r. map fst (row_features r)) dataset)))))"

definition fillna_row :: "string list \<Rightarrow> features \<Rightarrow> real list" where
  \<comment> \<open>\<^verbatim>\<open>dataset[feature_cols].fillna(0)\<close>, one row\<close>
  "fillna_row cols feats =
     map (\<lambda>col. case map_of feats col of Some (Some v) \<Rightarrow> v | _ \<Rightarrow> 0) cols"

subsection \<open>Cross-validated training\<close>

definition iloc :: "'a list \<Rightarrow> nat list \<Rightarrow> train_error + 'a list" where
  "iloc xs idx =
     (if list_all (\<lambda>i. i < length xs) idx then Inr (map (\<lambda>i. xs ! i) idx)
      else Inl IndexOutOfBounds)"

definition mean_squared_error :: "real list \<Rightarrow> real list \<Rightarrow> train_error + real" where
  "mean_squared_error y_true y_pred =
     (if length y_true \<noteq> length y_pred \<or> y_true = [] then Inl InconsistentLengths
      else Inr (sum_list (map (\<lambda>(a, b). (a - b)\<^sup>2) (zip y_true y_pred)) / real (length y_true)))"

definition run_fold ::
  "'t Env \<Rightarrow> Params \<Rightarrow> real list list \<Rightarrow> real list \<Rightarrow> nat list \<times> nat list
     \<Rightarrow> train_error + Booster \<times> real" where
  "run_fold env params X y split =
     (case (iloc X (fst split), iloc X (snd split), iloc y (fst split), iloc y (snd split)) of
        (Inr X_train, Inr X_val, Inr y_train, Inr y_val) \<Rightarrow>
          (let model = lgb_train env params X_train y_train X_val y_val
           in case predict model X_val of
                Inl msg \<Rightarrow> Inl (PredictFailed msg)
              | Inr y_pred \<Rightarrow>
                  (case mean_squared_error y_val y_pred of
                     Inl e \<Rightarrow> Inl e
                   | Inr mse \<Rightarrow> Inr (model, sqrt mse)))
      | _ \<Rightarrow> Inl IndexOutOfBounds)"

text \<open>
  The loop over the folds, with the variables it updates: the fold counter, the list of
  fold metrics, the best model and the best score (\<open>None\<close> is the initial
  \<^verbatim>\<open>float("inf")\<close>, below which every score lies).
\<close>

fun cv_loop ::
  "('f \<Rightarrow> train_error + Booster \<times> real) \<Rightarrow> 'f list \<Rightarrow> nat \<Rightarrow> FoldMetric list
     \<Rightarrow> Booster option \<Rightarrow> real option
     \<Rightarrow> train_error + FoldMetric list \<times> Booster option \<times> real option" where
  "cv_loop run [] i fold_metrics best_model best_score = Inr (fold_metrics, best_model, best_score)"
| "cv_loop run (split # splits) i fold_metrics best_model best_score =
     (case run split of
        Inl e \<Rightarrow> Inl e
      | Inr (model, r) \<Rightarrow>
          (let fold_metrics' = fold_metrics
                 @ [\<lparr>fold_index = i, rmse = r, fold_best_iteration = best_iteration model\<rparr>]
           in if (case best_score of None \<Rightarrow> True | Some b \<Rightarrow> r < b)
              then cv_loop run splits (Suc i) fold_metrics' (Some model) (Some r)
              else cv_loop run splits (Suc i) fold_metrics' best_model best_score))"

definition np_std :: "real list \<Rightarrow> real" where
  \<comment> \<open>\<^verbatim>\<open>np.std\<close>: divisor \<open>n\<close>\<close>
  "np_std xs = sqrt (sum_list (map (\<lambda>x. (x - np_mean xs)\<^sup>2) xs) / real (length xs))"

definition params_or_default :: "Params option \<Rightarrow> Params" where
  \<comment> \<open>\<^verbatim>\<open>params or config.gbdt_params.copy()\<close>\<close>
  "params_or_default params_opt =
     (case params_opt of Some p \<Rightarrow> p | None \<Rightarrow> gbdt_params config)"

definition train_correction_model ::
  "'t Env \<Rightarrow> real list list \<Rightarrow> real list \<Rightarrow> Params option \<Rightarrow> nat
     \<Rightarrow> train_error + Booster option \<times> Metrics" where
  "train_correction_model env X y params_opt n_splits =
     (let params = params_or_default params_opt
      in case tscv_split env n_splits (length X) of
           Inl msg \<Rightarrow> Inl (SplitError msg)
         | Inr splits \<Rightarrow>
             (case cv_loop (run_fold env params X y) splits 0 [] None None of
                Inl e \<Rightarrow> Inl e
              | Inr (fold_metrics, best_model, best_score) \<Rightarrow>
                  Inr (best_model,
                       \<lparr>cv_folds = fold_metrics,
                        mean_rmse = (if fold_metrics = [] then None
                                     else Some (np_mean (map rmse fold_metrics))),
                        std_rmse = (if fold_metrics = [] then None
                                    else Some (np_std (map rmse fold_metrics))),
                        best_rmse = best_score\<rparr>)))"

definition get_feature_importances :: "Booster \<Rightarrow> string list \<Rightarrow> (string \<times> real) list" where
  "get_feature_importances model feature_names =
     rev (sort_key snd (rev (zip feature_names (feature_importance model))))"

subsection \<open>Saving and the training pipeline\<close>

definition save_model ::
  "Config \<Rightarrow> 't Env \<Rightarrow> World \<Rightarrow> Booster \<Rightarrow> string \<Rightarrow> string \<Rightarrow> Metrics \<Rightarrow> (string \<times> real) list
     \<Rightarrow> Params \<Rightarrow> nat \<Rightarrow> string \<times> World" where
  "save_model cfg env w model name version metrics feature_importances hyperparameters train_size =
     (let model_id = uuid4 env;
          model_dir = path_join (models_dir cfg) name;
          model_path = path_join model_dir (version @ ''.pkl'');
          w1 = w\<lparr>files := (files w)(model_path \<mapsto> ModelFile model)\<rparr>;
          w2 = print (SavedModel model_path) w1;
          w3 = (case insert_error env of
                  None \<Rightarrow>
                    print (RegisteredModel model_id)
                      (w2\<lparr>model_registry := model_registry w2 @
                           [\<lparr>row_model_id = model_id, row_name = name, row_version = version,
                             row_type = ''gbdt'', row_path = model_path,
                             row_train_size = train_size, row_metrics = metrics,
                             row_feature_importances = feature_importances,
                             row_hyperparameters = hyperparameters,
                             approved = False, deployed = False\<rparr>]\<rparr>)
                | Some e \<Rightarrow> print (RegisterWarning e) w2)
      in (model_id, w3))"

definition print_top_features :: "(string \<times> real) list \<Rightarrow> World \<Rightarrow> World" where
  "print_top_features feature_importances w =
     foldl (\<lambda>w (i, (feat, imp)). print (TopFeature (i + 1) feat imp) w) w
       (zip [0..<length (take 10 feature_importances)] (take 10 feature_importances))"

definition train_and_save ::
  "Config \<Rightarrow> 't Env \<Rightarrow> World \<Rightarrow> string option
     \<Rightarrow> train_error + string option \<times> World" where
  "train_and_save cfg env w0 version =
     (let w = print TrainingBanner w0
      in case training_files env of
           None \<Rightarrow>
             Inr (None,
                  print RunEtlFirst
                    (print (DataError (''No training data found at ''
                       @ path_join (data_dir cfg) ''resolved_markets.parquet''
                       @ ''. Run ETL first.'')) w))
         | Some (markets_df, posts_df) \<Rightarrow>
             if length markets_df < min_resolved_markets_gbdt cfg then
               Inr (None,
                    print WaitingForData
                      (print (NotEnoughMarkets (length markets_df) (min_resolved_markets_gbdt cfg)) w))
             else
               (let w = print (TrainingWith (length markets_df)) w
                in case prepare_market_level_dataset (parse_datetime env) markets_df posts_df of
                     Inl e \<Rightarrow> Inl e
                   | Inr [] \<Rightarrow> Inl KeyError_target_error
                   | Inr dataset0 \<Rightarrow>
                       (let dataset = sort_values_resolved_at env dataset0;
                            feature_cols = dataset_feature_cols dataset;
                            X = map (\<lambda>r. fillna_row feature_cols (row_features r)) dataset;
                            y = map target_error dataset;
                            w = print (SampleCount (length X)) (print (FeatureCount (length feature_cols)) w)
                        in case train_correction_model env X y (Some (gbdt_params cfg)) 3 of
                             Inl e \<Rightarrow> Inl e
                           | Inr (None, metrics) \<Rightarrow> Inl NoBestModel
                           | Inr (Some model, metrics) \<Rightarrow>
                               (let feature_importances = get_feature_importances model feature_cols;
                                    w = print_top_features feature_importances (print TopFeaturesHeader w);
                                    version = (case version of
                                                 Some v \<Rightarrow> if v \<noteq> [] then v else now_stamp env
                                               | None \<Rightarrow> now_stamp env);
                                    (model_id, w) = save_model cfg env w model ''gbdt_correction'' version
                                       metrics feature_importances (gbdt_params cfg) (length X);
                                    report = \<lparr>report_model_id = model_id, report_version = version,
                                              trained_at = now_iso env, report_train_size = length X,
                                              report_metrics = metrics,
                                              top_features = take 20 feature_importances\<rparr>;
                                    report_path = path_join (reports_dir cfg)
                                       (''gbdt_report_'' @ version @ ''.json'');
                                    w = w\<lparr>files := (files w)(report_path \<mapsto> ReportFile report)\<rparr>;
                                    w = print TrainingComplete (print (ReportSaved report_path) w)
                                in Inr (Some model_id, w)))))"

subsection \<open>The selection policy in the words of the specification\<close>

text \<open>
  The model of a fold is the one the trainer returns for the training slice and the
  validation slice of the fold. Its held-out validation RMSE is the square root of the
  mean of the squared differences between the targets of the validation slice and the
  model's predictions for the rows of that slice. A fold is well formed when its
  positions lie within the data, its validation slice is not empty and the model
  predicts one value per validation row.
\<close>

definition rows_at :: "'a list \<Rightarrow> nat list \<Rightarrow> 'a list" where
  "rows_at xs idx = map (\<lambda>i. xs ! i) idx"

definition fold_model ::
  "'t Env \<Rightarrow> Params \<Rightarrow> real list list \<Rightarrow> real list \<Rightarrow> nat list \<times> nat list \<Rightarrow> Booster" where
  "fold_model env params X y split =
     lgb_train env params (rows_at X (fst split)) (rows_at y (fst split))
       (rows_at X (snd split)) (rows_at y (snd split))"

definition held_out_rmse ::
  "Booster \<Rightarrow> real list list \<Rightarrow> real list \<Rightarrow> nat list \<times> nat list \<Rightarrow> real \<Rightarrow> bool" where
  "held_out_rmse m X y split r \<longleftrightarrow>
     (\<exists>y_pred. predict m (rows_at X (snd split)) = Inr y_pred
        \<and> length y_pred = length (snd split)
        \<and> r = sqrt ((\<Sum>i < length (snd split). (y ! (snd split ! i) - y_pred ! i)\<^sup>2)
                  / real (length (snd split))))"

definition fold_well_formed ::
  "'t Env \<Rightarrow> Params \<Rightarrow> real list list \<Rightarrow> real list \<Rightarrow> nat list \<times> nat list \<Rightarrow> bool" where
  "fold_well_formed env params X y split \<longleftrightarrow>
     length y = length X
     \<and> list_all (\<lambda>i. i < length X) (fst split)
     \<and> list_all (\<lambda>i. i < length X) (snd split)
     \<and> snd split \<noteq> []
     \<and> (\<exists>y_pred. predict (fold_model env params X y split) (rows_at X (snd split)) = Inr y_pred
           \<and> length y_pred = length (snd split))"

text \<open>
  For the loop alone: fold \<open>k\<close> is the best fold of a run when its score is the lowest
  of all folds; among folds with the same lowest score it is the earliest one.
\<close>

definition is_best_fold ::
  "('f \<Rightarrow> train_error + Booster \<times> real) \<Rightarrow> 'f list \<Rightarrow> nat \<Rightarrow> Booster \<Rightarrow> real \<Rightarrow> bool" where
  "is_best_fold run splits k m r \<longleftrightarrow>
     k < length splits \<and> run (splits ! k) = Inr (m, r)
     \<and> (\<forall>j < length splits. \<forall>m' r'. run (splits ! j) = Inr (m', r') \<longrightarrow> r \<le> r')
     \<and> (\<forall>j < k. \<forall>m' r'. run (splits ! j) = Inr (m', r') \<longrightarrow> r < r')"

subsection \<open>A concrete environment\<close>

text \<open>
  An environment for concrete runs: timestamps given in seconds, a stable sort by
  resolution time, a trainer whose model predicts the mean of its training targets, an
  expanding-window split of four samples into three folds, a database that is not
  configured, and training files with 40 resolved markets and no posts.
\<close>

definition example_train ::
  "Params \<Rightarrow> real list list \<Rightarrow> real list \<Rightarrow> real list list \<Rightarrow> real list \<Rightarrow> Booster" where
  "example_train params X_train y_train X_val y_val =
     \<lparr>feature_name = [''num_posts''],
      predict = (\<lambda>rows. Inr (map (\<lambda>row. np_mean y_train) rows)),
      feature_importance = [1],
      best_iteration = length y_train\<rparr>"

definition example_split :: "nat \<Rightarrow> nat \<Rightarrow> string + (nat list \<times> nat list) list" where
  "example_split n_splits n_samples = Inr [([0], [1]), ([0, 1], [2]), ([0, 1, 2], [3])]"

definition example_to_datetime :: "nat \<Rightarrow> parsed option" where
  \<comment> \<open>timestamps given in seconds, without a time zone\<close>
  "example_to_datetime t = Some (At \<lparr>seconds = real t, tz_aware = False\<rparr>)"

definition example_market :: "nat Market" where
  "example_market =
     \<lparr>ident = ''m1'', created_at = Value 0, resolved_at = Value 86400,
      resolved_outcome_id = Some ''YES'', final_probabilities = [(''YES'', 0.9), (''NO'', 0.1)]\<rparr>"

definition example_env :: "nat Env" where
  "example_env =
     \<lparr>uuid4 = ''0f8fad5b-d9cb-469f-a165-70867728950e'',
      now_stamp = ''20240101_000000'',
      now_iso = ''2024-01-01T00:00:00'',
      insert_error = Some ''Supabase credentials not configured'',
      training_files = Some (replicate 40 example_market, empty_frame),
      parse_datetime = example_to_datetime,
      sort_values_resolved_at = sort_key (\<lambda>r. case row_resolved_at r of Value t \<Rightarrow> t | _ \<Rightarrow> 0),
      lgb_train = example_train,
      tscv_split = example_split\<rparr>"

definition empty_world :: World where
  "empty_world = \<lparr>files = Map.empty, model_registry = [], printed = []\<rparr>"

section \<open>Properties\<close>

subsection \<open>Facts about the correction step\<close>

lemma clip_bounds: "0.01 \<le> clip p \<and> clip p \<le> 0.99"
  by (simp add: clip_def max_def min_def)

lemma clip_mono: "p \<le> q \<Longrightarrow> clip p \<le> clip q"
  by (simp add: clip_def max_def min_def)

lemma corrected_prob_cases:
  "corrected_prob c p =
     (if exp_overflows c p then 0
      else 1 / (1 + exp (- (ln (clip p / (1 - clip p)) + c))))"
  by (simp add: corrected_prob_def exp_overflows_def np_exp_def Let_def)

lemma corrected_prob_nonneg: "0 \<le> corrected_prob c p"
proof -
  have "0 \<le> 1 / (1 + exp (- (ln (clip p / (1 - clip p)) + c)))"
    by simp
  then show ?thesis
    by (simp add: corrected_prob_cases)
qed

lemma corrected_prob_pos: "\<not> exp_overflows c p \<Longrightarrow> 0 < corrected_prob c p"
proof -
  assume "\<not> exp_overflows c p"
  moreover have "0 < 1 + exp (- (ln (clip p / (1 - clip p)) + c))"
    by (simp add: add_pos_pos)
  ultimately show ?thesis
    by (simp add: corrected_prob_cases)
qed

lemma corrected_prob_zero_iff: "corrected_prob c p = 0 \<longleftrightarrow> exp_overflows c p"
  using corrected_prob_pos [of c p] by (auto simp: corrected_prob_cases)

lemma odds_mono:
  assumes "0 < a" "a \<le> b" "b < (1::real)"
  shows "a / (1 - a) \<le> b / (1 - b)"
proof -
  have "0 \<le> a" "0 < 1 - b" "1 - b \<le> 1 - a"
    using assms by simp_all
  with assms(2) show ?thesis
    by (intro frac_le) simp_all
qed

lemma logit_mono:
  assumes "p \<le> q"
  shows "ln (clip p / (1 - clip p)) \<le> ln (clip q / (1 - clip q))"
proof -
  let ?a = "clip p" and ?b = "clip q"
  have a: "0 < ?a" "?a < 1" and b: "0 < ?b" "?b < 1"
    using clip_bounds [of p] clip_bounds [of q] by simp_all
  have ab: "?a \<le> ?b"
    using assms by (rule clip_mono)
  have "?a / (1 - ?a) \<le> ?b / (1 - ?b)"
    using a(1) ab b(2) by (rule odds_mono)
  moreover have "0 < ?a / (1 - ?a)"
    using a by simp
  ultimately show ?thesis
    by simp
qed

lemma exp_overflows_antimono:
  assumes "p \<le> q" and "exp_overflows c q"
  shows "exp_overflows c p"
  using logit_mono [OF assms(1)] assms(2) by (simp add: exp_overflows_def)

lemma corrected_prob_mono:
  assumes "p \<le> q"
  shows "corrected_prob c p \<le> corrected_prob c q"
proof (cases "exp_overflows c p")
  case True
  then show ?thesis
    using corrected_prob_nonneg [of c q] by (simp add: corrected_prob_cases)
next
  case False
  then have nq: "\<not> exp_overflows c q"
    using exp_overflows_antimono [OF assms] by blast
  let ?lp = "ln (clip p / (1 - clip p))" and ?lq = "ln (clip q / (1 - clip q))"
  have "?lp \<le> ?lq"
    using assms by (rule logit_mono)
  then have "exp (- (?lq + c)) \<le> exp (- (?lp + c))"
    by simp
  then have "1 / (1 + exp (- (?lp + c))) \<le> 1 / (1 + exp (- (?lq + c)))"
    by (intro divide_left_mono) (simp_all add: add_pos_pos)
  with False nq show ?thesis
    by (simp add: corrected_prob_cases)
qed

lemma logit_lower_bound: "- 7 \<le> ln (clip p / (1 - clip p))"
proof -
  let ?a = "clip p"
  have a: "1 / 100 \<le> ?a" "?a \<le> 99 / 100"
    using clip_bounds [of p] by simp_all
  have "(1 / 100) / (1 - 1 / 100) \<le> ?a / (1 - ?a)"
    using a by (intro odds_mono) simp_all
  then have odds: "1 / 128 \<le> ?a / (1 - ?a)"
    by simp
  have "ln (2 :: real) \<le> 2 - 1"
    by (rule ln_le_minus_one) simp
  moreover have "ln (128 :: real) = 7 * ln 2"
    using ln_realpow [of "2 :: real" 7] by simp
  ultimately have "- 7 \<le> ln (1 / (128 :: real))"
    by (simp add: ln_div)
  also have "\<dots> \<le> ln (?a / (1 - ?a))"
    by (rule ln_mono) (use odds in simp_all)
  finally show ?thesis .
qed

lemma no_overflow_if_ge:
  assumes "- 700 \<le> c"
  shows "\<not> exp_overflows c p"
  using logit_lower_bound [of p] assms
  by (simp add: exp_overflows_def exp_overflow_threshold_def)

lemma no_overflow_if_correction_ge: "- 700 \<le> c \<Longrightarrow> no_overflow c P"
  by (simp add: no_overflow_def list_all_iff no_overflow_if_ge)

lemma snd_apply_correction:
  "map snd (apply_correction c P) = map (\<lambda>kv. corrected_prob c (snd kv)) P"
  by (simp add: apply_correction_def case_prod_unfold)

lemma fst_apply_correction: "map fst (apply_correction c P) = map fst P"
  by (simp add: apply_correction_def case_prod_unfold)

lemma fst_normalize: "map fst (normalize xs) = map fst xs"
  by (simp add: normalize_def Let_def case_prod_unfold comp_def)

lemma snd_normalize:
  "map snd (normalize xs) = map (\<lambda>v. np_divide v (sum_list (map snd xs))) (map snd xs)"
  by (simp add: normalize_def Let_def case_prod_unfold comp_def)

lemma map_of_apply_correction:
  "map_of (apply_correction c P) k = map_option (corrected_prob c) (map_of P k)"
  by (induction P) (auto simp: apply_correction_def)

lemma map_of_normalize:
  "map_of (normalize xs) k = map_option (\<lambda>v. np_divide v (sum_list (map snd xs))) (map_of xs k)"
proof -
  have "map_of (map (\<lambda>(k, v). (k, np_divide v t)) xs) k = map_option (\<lambda>v. np_divide v t) (map_of xs k)"
    for t
    by (induction xs) auto
  then show ?thesis
    by (simp add: normalize_def Let_def)
qed

lemma total_nonneg: "0 \<le> sum_list (map snd (apply_correction c P))"
  by (rule sum_list_nonneg) (auto simp: snd_apply_correction corrected_prob_nonneg)

lemma total_pos:
  assumes "some_outcome_finite c P"
  shows "0 < sum_list (map snd (apply_correction c P))"
proof -
  from assms obtain kv where kv: "kv \<in> set P" "\<not> exp_overflows c (snd kv)"
    by (auto simp: some_outcome_finite_def list_ex_iff)
  let ?xs = "map snd (apply_correction c P)"
  have mem: "corrected_prob c (snd kv) \<in> set ?xs"
    using kv(1) by (auto simp: snd_apply_correction)
  have "corrected_prob c (snd kv) \<le> sum_list ?xs"
    using mem by (rule member_le_sum_list) (auto simp: snd_apply_correction corrected_prob_nonneg)
  with corrected_prob_pos [OF kv(2)] show ?thesis
    by simp
qed

lemma total_zero:
  assumes "\<not> some_outcome_finite c P"
  shows "map snd (apply_correction c P) = map (\<lambda>kv. 0) P"
  using assms
  by (auto simp: some_outcome_finite_def list_ex_iff snd_apply_correction corrected_prob_cases)

lemma no_overflow_some_finite: "P \<noteq> [] \<Longrightarrow> no_overflow c P \<Longrightarrow> some_outcome_finite c P"
  by (cases P) (auto simp: no_overflow_def some_outcome_finite_def)

lemma sum_list_pos_real:
  fixes xs :: "real list"
  assumes "xs \<noteq> []" "\<And>x. x \<in> set xs \<Longrightarrow> 0 < x"
  shows "0 < sum_list xs"
  using assms by (induction xs) (auto intro: add_pos_nonneg sum_list_nonneg less_imp_le)

lemma sum_list_map_divide:
  fixes xs :: "real list"
  shows "sum_list (map (\<lambda>v. v / t) xs) = sum_list xs / t"
  by (induction xs) (simp_all add: add_divide_distrib)

lemma member_less_sum_list:
  fixes xs :: "real list"
  assumes pos: "\<And>y. y \<in> set xs \<Longrightarrow> 0 < y" and x: "x \<in> set xs" and len: "2 \<le> length xs"
  shows "x < sum_list xs"
proof -
  have "sum_list xs = x + sum_list (remove1 x xs)"
    using x sum_list_map_remove1 [of x xs "\<lambda>v. v"] by simp
  moreover have "remove1 x xs \<noteq> []"
    using len x by (auto simp: length_remove1 dest!: arg_cong [where f = length])
  moreover have "0 < y" if "y \<in> set (remove1 x xs)" for y
    using that pos notin_set_remove1 by fastforce
  ultimately show ?thesis
    using sum_list_pos_real [of "remove1 x xs"] by simp
qed

text \<open>
  Claim C1, as stated, promises that every entry of the renormalised mapping lies
  strictly inside \<open>(0, 1)\<close> for every mapping with at least one outcome and every
  correction value. A mapping with a single outcome is renormalised to the value \<open>1\<close>
  exactly. For the correction \<open>-1000\<close> the exponential overflows for every outcome,
  every corrected value is \<open>0.0\<close>, the total is \<open>0.0\<close> and every entry of the result is
  NaN.
\<close>

theorem logit_correction_single_outcome_counterexample:
  "logit_correction_step 0 [(''YES'', 1 / 2)] = [(''YES'', Finite 1)]
   \<and> logit_correction_step (- 1000) [(''YES'', 1 / 2), (''NO'', 1 / 2)]
       = [(''YES'', NaN), (''NO'', NaN)]"
  by (simp add: logit_correction_step_def normalize_def apply_correction_def
      corrected_prob_def clip_def np_exp_def np_divide_def exp_overflow_threshold_def)

text \<open>
  The result for every correction under which the exponential overflows for no outcome.
\<close>

lemma logit_correction_step_no_overflow:
  assumes "P \<noteq> []" and "no_overflow c P"
  shows "map fst (logit_correction_step c P) = map fst P
    \<and> (\<exists>vs. map snd (logit_correction_step c P) = map Finite vs
          \<and> sum_list vs = 1
          \<and> \<bar>sum_list vs - 1\<bar> \<le> 1 / 10 ^ 6
          \<and> (\<forall>v \<in> set vs. 0 < v \<and> v \<le> 1 \<and> (2 \<le> length P \<longrightarrow> v < 1)))"
proof -
  let ?xs = "map snd (apply_correction c P)"
  let ?total = "sum_list ?xs"
  let ?vs = "map (\<lambda>x. x / ?total) ?xs"
  have total: "0 < ?total"
    using assms by (intro total_pos no_overflow_some_finite)
  have keys: "map fst (logit_correction_step c P) = map fst P"
    by (simp add: logit_correction_step_def fst_normalize fst_apply_correction)
  have vals: "map snd (logit_correction_step c P) = map Finite ?vs"
    using total by (simp add: logit_correction_step_def snd_normalize np_divide_def comp_def)
  have sum: "sum_list ?vs = 1"
    using total by (simp only: sum_list_map_divide) simp
  have pos: "0 < x" if "x \<in> set ?xs" for x
  proof -
    from that obtain kv where "kv \<in> set P" "x = corrected_prob c (snd kv)"
      by (auto simp: snd_apply_correction)
    moreover from this assms(2) have "\<not> exp_overflows c (snd kv)"
      by (simp add: no_overflow_def list_all_iff)
    ultimately show ?thesis
      by (simp add: corrected_prob_pos)
  qed
  have bounds: "0 < v \<and> v \<le> 1 \<and> (2 \<le> length P \<longrightarrow> v < 1)" if "v \<in> set ?vs" for v
  proof -
    from that obtain x where x: "x \<in> set ?xs" and v: "v = x / ?total"
      by auto
    have "x \<le> ?total"
      using x pos by (intro member_le_sum_list) (auto intro: less_imp_le)
    moreover have "x < ?total" if "2 \<le> length P"
      using pos x that by (intro member_less_sum_list) (simp_all add: apply_correction_def)
    ultimately show ?thesis
      using total pos [OF x] by (simp add: v)
  qed
  from keys vals sum bounds show ?thesis
    by (intro conjI exI [of _ ?vs]) simp_all
qed

text \<open>
  Claim C1 (amended): for every non-empty probability mapping and every correction value
  of at least \<open>-700\<close> (for such a value the exponential overflows for no outcome), the
  logit-correction-renormalisation step keeps the outcomes, its values are finite and
  sum to \<open>1\<close> (hence within \<open>1e-6\<close> of \<open>1\<close>), every value lies in \<open>(0, 1]\<close>, and every
  value is strictly below \<open>1\<close> as soon as the mapping has two outcomes or more. Inputs
  equal to \<open>0\<close> or \<open>1\<close> are covered: no assumption is made on the input values.
\<close>

theorem logit_correction_step_distribution:
  assumes "P \<noteq> []" and "- 700 \<le> c"
  shows "map fst (logit_correction_step c P) = map fst P
    \<and> (\<exists>vs. map snd (logit_correction_step c P) = map Finite vs
          \<and> sum_list vs = 1
          \<and> \<bar>sum_list vs - 1\<bar> \<le> 1 / 10 ^ 6
          \<and> (\<forall>v \<in> set vs. 0 < v \<and> v \<le> 1 \<and> (2 \<le> length P \<longrightarrow> v < 1)))"
  using assms(1) no_overflow_if_correction_ge [OF assms(2)]
  by (rule logit_correction_step_no_overflow)

theorem logit_correction_step_distribution_witness:
  "[(''YES'', 0), (''NO'', 1)] \<noteq> []
   \<and> - 700 \<le> (3 :: real)
   \<and> map fst (logit_correction_step 3 [(''YES'', 0), (''NO'', 1)]) = [''YES'', ''NO'']
   \<and> (\<exists>vs. map snd (logit_correction_step 3 [(''YES'', 0), (''NO'', 1)]) = map Finite vs
         \<and> sum_list vs = 1
         \<and> list_all (\<lambda>v. 0 < v \<and> v < 1) vs)"
proof -
  have ne: "[(''YES'', 0), (''NO'', 1 :: real)] \<noteq> []"
    by simp
  have no: "- 700 \<le> (3 :: real)"
    by simp
  from logit_correction_step_distribution [OF ne no]
  obtain vs where "map fst (logit_correction_step 3 [(''YES'', 0), (''NO'', 1)]) = [''YES'', ''NO'']"
    and "map snd (logit_correction_step 3 [(''YES'', 0), (''NO'', 1)]) = map Finite vs"
    and "sum_list vs = 1"
    and "\<forall>v \<in> set vs. 0 < v \<and> v \<le> 1 \<and> (2 \<le> length [(''YES'', 0 :: real), (''NO'', 1)] \<longrightarrow> v < 1)"
    by auto
  with ne no show ?thesis
    by (auto simp: list_all_iff)
qed

text \<open>
  Claim C10, as stated, promises the order for every correction value. For the
  correction \<open>-1000\<close> the exponential overflows for both outcomes of an evenly split
  mapping: both corrected probabilities are NaN, and no comparison with NaN holds.
\<close>

theorem logit_correction_step_order_counterexample:
  "map_of [(''YES'', 1 / 2), (''NO'', 1 / 2 :: real)] ''YES'' = Some (1 / 2)
   \<and> map_of [(''YES'', 1 / 2), (''NO'', 1 / 2 :: real)] ''NO'' = Some (1 / 2)
   \<and> map_of (logit_correction_step (- 1000) [(''YES'', 1 / 2), (''NO'', 1 / 2)]) ''YES'' = Some NaN
   \<and> map_of (logit_correction_step (- 1000) [(''YES'', 1 / 2), (''NO'', 1 / 2)]) ''NO'' = Some NaN
   \<and> \<not> np_ge NaN NaN"
  by (simp add: logit_correction_step_def normalize_def apply_correction_def
      corrected_prob_def clip_def np_exp_def np_divide_def exp_overflow_threshold_def)

text \<open>
  The order is kept under every correction for which the exponential does not overflow
  for every outcome at once.
\<close>

lemma logit_correction_step_order_some_finite:
  assumes "map_of P a = Some pa" and "map_of P b = Some pb" and "pb \<le> pa"
    and "some_outcome_finite c P"
  shows "\<exists>qa qb. map_of (logit_correction_step c P) a = Some (Finite qa)
      \<and> map_of (logit_correction_step c P) b = Some (Finite qb)
      \<and> qb \<le> qa \<and> np_ge (Finite qa) (Finite qb)"
proof -
  let ?total = "sum_list (map snd (apply_correction c P))"
  have total: "0 < ?total"
    using assms(4) by (rule total_pos)
  have a: "map_of (logit_correction_step c P) a = Some (Finite (corrected_prob c pa / ?total))"
    using assms(1) total
    by (simp add: logit_correction_step_def map_of_normalize map_of_apply_correction np_divide_def)
  have b: "map_of (logit_correction_step c P) b = Some (Finite (corrected_prob c pb / ?total))"
    using assms(2) total
    by (simp add: logit_correction_step_def map_of_normalize map_of_apply_correction np_divide_def)
  have "corrected_prob c pb / ?total \<le> corrected_prob c pa / ?total"
    using corrected_prob_mono [OF assms(3)] total by (simp add: divide_right_mono)
  with a b show ?thesis
    by simp
qed

text \<open>
  Claim C10 (amended): for every correction value of at least \<open>-700\<close> (for such a value
  the exponential overflows for no outcome), the correction step preserves the order of
  the input probabilities. When outcome \<open>a\<close> has probability \<open>pa\<close>, outcome \<open>b\<close> has
  probability \<open>pb\<close> and \<open>pb \<le> pa\<close>, both outcomes are present in the corrected mapping
  with finite values and the corrected probability of \<open>a\<close> is greater than or equal to
  that of \<open>b\<close>.
\<close>

theorem logit_correction_step_preserves_order:
  assumes "map_of P a = Some pa" and "map_of P b = Some pb" and "pb \<le> pa"
    and "- 700 \<le> c"
  shows "\<exists>qa qb. map_of (logit_correction_step c P) a = Some (Finite qa)
      \<and> map_of (logit_correction_step c P) b = Some (Finite qb)
      \<and> qb \<le> qa \<and> np_ge (Finite qa) (Finite qb)"
proof -
  have "P \<noteq> []"
    using assms(1) by auto
  then have "some_outcome_finite c P"
    using no_overflow_if_correction_ge [OF assms(4)] by (rule no_overflow_some_finite)
  with assms(1-3) show ?thesis
    by (rule logit_correction_step_order_some_finite)
qed

theorem logit_correction_step_preserves_order_witness:
  "map_of [(''YES'', 7 / 10), (''NO'', 3 / 10)] ''YES'' = Some (7 / 10)
   \<and> map_of [(''YES'', 7 / 10), (''NO'', 3 / 10)] ''NO'' = Some (3 / 10)
   \<and> (3 / 10 :: real) \<le> 7 / 10
   \<and> - 700 \<le> (2 :: real)
   \<and> (\<exists>qa qb. map_of (logit_correction_step 2 [(''YES'', 7 / 10), (''NO'', 3 / 10)]) ''YES''
          = Some (Finite qa)
      \<and> map_of (logit_correction_step 2 [(''YES'', 7 / 10), (''NO'', 3 / 10)]) ''NO''
          = Some (Finite qb)
      \<and> qb \<le> qa \<and> np_ge (Finite qa) (Finite qb))"
proof -
  show ?thesis
    using logit_correction_step_preserves_order
      [of "[(''YES'', 7 / 10), (''NO'', 3 / 10)]" "''YES''" "7 / 10" "''NO''" "3 / 10" 2]
    by simp
qed

subsection \<open>The correction endpoint\<close>

lemma new_CorrectionResponse_floats:
  "new_CorrectionResponse coerce probs v conf (map (\<lambda>(k, x). (k, PyFloat x)) expl)
     = Inr \<lparr>probabilities_corrected = probs, model_version = v, confidence = conf, explain = expl\<rparr>"
proof -
  have "filter (\<lambda>(k, v). validate_float coerce v = None) (map (\<lambda>(k, x). (k, PyFloat x)) expl) = []"
    by (induction expl) auto
  moreover have "List.map_filter (\<lambda>(k, v). map_option (\<lambda>x. (k, x)) (validate_float coerce v))
      (map (\<lambda>(k, x). (k, PyFloat x)) expl) = expl"
    by (induction expl) auto
  ultimately show ?thesis
    by (simp add: new_CorrectionResponse_def)
qed

lemma predict_correction_success:
  assumes "predict (info_model info) [align_columns (feature_name (info_model info))
      (correction_features request)] = Inr (correction # rest)"
  shows "predict_correction coerce (Some info) request =
     Inr \<lparr>probabilities_corrected = logit_correction_step correction (current_probabilities request),
          model_version = info_version info, confidence = 0.8,
          explain = top_importances (info_model info)\<rparr>"
  using assms
  by (simp add: predict_correction_def correction_try_body_def new_CorrectionResponse_floats)

lemma predict_correction_failure_raises:
  assumes "predict (info_model info) [align_columns (feature_name (info_model info))
      (correction_features request)] = Inl msg"
    and "coerce msg = None"
  shows "predict_correction coerce (Some info) request = Inl (ValidationError [''error''])"
  using assms
  by (simp add: predict_correction_def correction_try_body_def new_CorrectionResponse_def)

text \<open>
  Claim C2 says that the correction operation returns the input probabilities with
  version \<open>none\<close> and confidence \<open>0.0\<close> when no model resolves. On that path the source
  builds the response with \<^verbatim>\<open>explain={"message": "No model available yet"}\<close>,
  while the response class declares \<^verbatim>\<open>explain: Dict[str, float]\<close>: whenever the
  validator does not read that message as a number, the constructor raises and the
  operation returns no response at all, for every request.
\<close>

theorem predict_correction_no_model_raises:
  assumes "coerce ''No model available yet'' = None"
  shows "predict_correction coerce None request = Inl (ValidationError [''message''])"
  using assms by (simp add: predict_correction_def new_CorrectionResponse_def)

theorem predict_correction_no_model_raises_witness:
  "strict_mode ''No model available yet'' = None
   \<and> predict_correction strict_mode None
        \<lparr>market_id = ''m1'', current_probabilities = [(''YES'', 0.6), (''NO'', 0.4)],
         market_features = default_MarketFeatures,
         recent_summary = \<lparr>Wbatch = 0, last_hour_delta = 0, top_post_features = []\<rparr>\<rparr>
       = Inl (ValidationError [''message''])"
  using predict_correction_no_model_raises [of strict_mode]
  by (simp add: strict_mode_def)

subsection \<open>The post usefulness endpoint\<close>

text \<open>
  Claim C9: when no usefulness model resolves, the response carries the product
  relevance * strength * credibility of the request's post features as usefulness score,
  \<open>0.5\<close> as probability of moving toward truth and the version \<open>heuristic\<close>; for
  relevance \<open>0.8\<close>, strength \<open>0.6\<close>, credibility \<open>0.9\<close> and every other field at its
  default the score is \<open>0.432\<close>.
\<close>

theorem predict_post_usefulness_heuristic:
  "predict_post_usefulness None request =
     \<lparr>usefulness_score = relevance (post_features request) * strength (post_features request)
        * credibility (post_features request),
      move_toward_truth_prob = 0.5, usefulness_model_version = ''heuristic''\<rparr>
   \<and> predict_post_usefulness None
        \<lparr>post_features = default_PostFeatures\<lparr>relevance := 0.8, strength := 0.6, credibility := 0.9\<rparr>,
         market_context = default_MarketFeatures, request_prob_before = 0.5\<rparr>
     = \<lparr>usefulness_score = 0.432, move_toward_truth_prob = 0.5,
        usefulness_model_version = ''heuristic''\<rparr>"
  by (simp add: predict_post_usefulness_def default_PostFeatures_def)

subsection \<open>Label construction\<close>

lemma filter_less_takeWhile:
  fixes f :: "'a \<Rightarrow> 't::linorder"
  assumes "sorted (map f xs)"
  shows "filter (\<lambda>x. f x < t) xs = takeWhile (\<lambda>x. f x < t) xs"
  using assms
proof (induction xs)
  case Nil
  then show ?case by simp
next
  case (Cons a xs)
  show ?case
  proof (cases "f a < t")
    case True
    with Cons show ?thesis by simp
  next
    case False
    with Cons.prems have "\<forall>x \<in> set xs. \<not> f x < t"
      by auto
    then have "filter (\<lambda>x. f x < t) xs = []"
      by (simp add: filter_empty_conv)
    with False show ?thesis by simp
  qed
qed

lemma filter_ge_dropWhile:
  fixes f :: "'a \<Rightarrow> 't::linorder"
  assumes "sorted (map f xs)"
  shows "filter (\<lambda>x. t \<le> f x) xs = dropWhile (\<lambda>x. f x < t) xs"
  using assms
proof (induction xs)
  case Nil
  then show ?case by simp
next
  case (Cons a xs)
  show ?case
  proof (cases "f a < t")
    case True
    with Cons show ?thesis by simp
  next
    case False
    with Cons.prems have "\<forall>x \<in> set xs. t \<le> f x"
      by auto
    then have "filter (\<lambda>x. t \<le> f x) xs = xs"
      by (simp add: filter_id_conv)
    with False show ?thesis by simp
  qed
qed

lemma last_before_index:
  fixes f :: "'a \<Rightarrow> 't::linorder"
  assumes srt: "sorted (map f xs)" and ne: "filter (\<lambda>x. f x < t) xs \<noteq> []"
  shows "\<exists>i < length xs. xs ! i = last (filter (\<lambda>x. f x < t) xs) \<and> f (xs ! i) < t
          \<and> (\<forall>j < length xs. f (xs ! j) < t \<longrightarrow> j \<le> i)"
proof -
  let ?P = "\<lambda>x. f x < t"
  let ?tw = "takeWhile ?P xs"
  let ?n = "length ?tw"
  have eq: "filter ?P xs = ?tw"
    using srt by (rule filter_less_takeWhile)
  have n: "0 < ?n" "?n \<le> length xs"
    using ne eq by (simp_all add: length_takeWhile_le)
  have nth: "xs ! (?n - 1) = last ?tw"
    using n by (simp add: last_conv_nth takeWhile_nth)
  have "last ?tw \<in> set ?tw"
    using n by simp
  then have P: "?P (xs ! (?n - 1))"
    using nth by (auto dest: set_takeWhileD)
  have max: "j \<le> ?n - 1" if j: "j < length xs" and Pj: "?P (xs ! j)" for j
  proof (rule ccontr)
    assume "\<not> j \<le> ?n - 1"
    then have nj: "?n \<le> j" by simp
    then have "?n < length xs" using j by simp
    then have "\<not> ?P (xs ! ?n)"
      by (rule nth_length_takeWhile)
    moreover have "f (xs ! ?n) \<le> f (xs ! j)"
      using srt nj j sorted_nth_mono [of "map f xs" ?n j] by simp
    ultimately show False using Pj by simp
  qed
  have lt: "?n - 1 < length xs"
    using n by linarith
  show ?thesis
    using lt nth P max eq by (intro exI [of _ "?n - 1"]) auto
qed

lemma first_after_index:
  fixes f :: "'a \<Rightarrow> 't::linorder"
  assumes srt: "sorted (map f xs)" and ne: "filter (\<lambda>x. t \<le> f x) xs \<noteq> []"
  shows "\<exists>i < length xs. xs ! i = hd (filter (\<lambda>x. t \<le> f x) xs) \<and> t \<le> f (xs ! i)
          \<and> (\<forall>j < length xs. t \<le> f (xs ! j) \<longrightarrow> i \<le> j)"
proof -
  let ?P = "\<lambda>x. f x < t"
  let ?n = "length (takeWhile ?P xs)"
  have eq: "filter (\<lambda>x. t \<le> f x) xs = dropWhile ?P xs"
    using srt by (rule filter_ge_dropWhile)
  with ne have dne: "dropWhile ?P xs \<noteq> []" by simp
  have "length xs = ?n + length (dropWhile ?P xs)"
    by (metis length_append takeWhile_dropWhile_id)
  with dne have n: "?n < length xs"
    by simp
  have hd: "hd (dropWhile ?P xs) = xs ! ?n"
    using dne dropWhile_nth [of 0 ?P xs] by (simp add: hd_conv_nth)
  have notP: "\<not> ?P (xs ! ?n)"
    using n by (rule nth_length_takeWhile)
  have min: "?n \<le> j" if "j < length xs" and "t \<le> f (xs ! j)" for j
  proof (rule ccontr)
    assume "\<not> ?n \<le> j"
    then have "j < ?n" by simp
    then have "takeWhile ?P xs ! j \<in> set (takeWhile ?P xs)"
      by simp
    then have "?P (takeWhile ?P xs ! j)"
      by (rule set_takeWhileD [THEN conjunct2])
    then have "?P (xs ! j)"
      using \<open>j < ?n\<close> by (simp add: takeWhile_nth)
    with that show False by simp
  qed
  show ?thesis
    using n hd notP min eq by (intro exI [of _ ?n]) auto
qed

lemma sorted_le_last:
  fixes xs :: "('k::linorder) list"
  shows "sorted xs \<Longrightarrow> x \<in> set xs \<Longrightarrow> x \<le> last xs"
  by (induction xs) auto

lemma last_filter_greatest:
  fixes f :: "'a \<Rightarrow> 't::linorder"
  assumes srt: "sorted (map f ys)" and ne: "filter (\<lambda>x. f x < t) ys \<noteq> []"
  shows "last (filter (\<lambda>x. f x < t) ys) \<in> set ys
    \<and> f (last (filter (\<lambda>x. f x < t) ys)) < t
    \<and> (\<forall>s' \<in> set ys. f s' < t \<longrightarrow> f s' \<le> f (last (filter (\<lambda>x. f x < t) ys)))"
proof -
  let ?zs = "filter (\<lambda>x. f x < t) ys"
  have mem: "last ?zs \<in> set ?zs"
    using ne by (rule last_in_set)
  have sorted_zs: "sorted (map f ?zs)"
    using srt by (rule sorted_filter)
  have "f s' \<le> f (last ?zs)" if "s' \<in> set ys" "f s' < t" for s'
  proof -
    from that have "f s' \<in> set (map f ?zs)"
      by simp
    with sorted_zs have "f s' \<le> last (map f ?zs)"
      by (rule sorted_le_last)
    then show ?thesis
      using ne by (simp add: last_map)
  qed
  with mem show ?thesis
    by auto
qed

lemma hd_filter_least:
  fixes f :: "'a \<Rightarrow> 't::linorder"
  assumes srt: "sorted (map f ys)" and ne: "filter (\<lambda>x. t \<le> f x) ys \<noteq> []"
  shows "hd (filter (\<lambda>x. t \<le> f x) ys) \<in> set ys
    \<and> t \<le> f (hd (filter (\<lambda>x. t \<le> f x) ys))
    \<and> (\<forall>s' \<in> set ys. t \<le> f s' \<longrightarrow> f (hd (filter (\<lambda>x. t \<le> f x) ys)) \<le> f s')"
proof -
  let ?zs = "filter (\<lambda>x. t \<le> f x) ys"
  have mem: "hd ?zs \<in> set ?zs"
    using ne by (rule hd_in_set)
  have sorted_zs: "sorted (map f ?zs)"
    using srt by (rule sorted_filter)
  have "f (hd ?zs) \<le> f s'" if "s' \<in> set ys" "t \<le> f s'" for s'
  proof -
    from that have "f s' \<in> set (map f ?zs)"
      by simp
    with sorted_zs have "hd (map f ?zs) \<le> f s'"
      by (cases ?zs) auto
    then show ?thesis
      using ne by (simp add: hd_map)
  qed
  with mem show ?thesis
    by auto
qed

lemma sort_values_unique:
  fixes key :: "'a \<Rightarrow> 'k::linorder"
  assumes srt: "is_sort_values key srt" and strict: "sorted_wrt (<) (map key xs)"
  shows "srt xs = xs"
proof -
  let ?ys = "srt xs"
  from srt have set_eq: "set ?ys = set xs" and len: "length ?ys = length xs"
    and sorted_ys: "sorted (map key ?ys)"
    by (simp_all add: is_sort_values_def)
  from strict have sorted_xs: "sorted (map key xs)" and dist_keys: "distinct (map key xs)"
    by (simp_all add: strict_sorted_iff)
  from dist_keys have dist_xs: "distinct xs" and inj: "inj_on key (set xs)"
    by (simp_all add: distinct_map)
  have "card (set ?ys) = length ?ys"
    using set_eq len dist_xs by (simp add: distinct_card)
  then have dist_ys: "distinct ?ys"
    by (rule card_distinct)
  with inj set_eq have "distinct (map key ?ys)"
    by (simp add: distinct_map)
  moreover have "set (map key ?ys) = set (map key xs)"
    using set_eq by simp
  ultimately have "map key ?ys = map key xs"
    using sorted_ys sorted_xs dist_keys by (intro sorted_distinct_set_unique)
  moreover have "inj_on key (set ?ys \<union> set xs)"
    using inj set_eq by simp
  ultimately show ?thesis
    by (simp add: inj_on_map_eq_map)
qed

lemma label_posts_with_truth_rows:
  assumes "snapshots \<noteq> []"
  shows "label_posts_with_truth sort_posts sort_snapshots posts w snapshots =
     (if posts = [] then []
      else map (\<lambda>row. \<lparr>post = row, labels = Some (label_row w (sort_snapshots snapshots) row)\<rparr>)
             (sort_posts posts))"
  using assms by (simp add: label_posts_with_truth_def Let_def)

lemma label_row_prob_before:
  assumes srt: "sorted (map timestamp ys)" and t: "scored_at row = Some t"
  shows "spec_prob_before w ys t (prob_before (label_row w ys row))"
proof (cases "filter (\<lambda>s. timestamp s < t) ys = []")
  case True
  then have "\<not> (\<exists>s \<in> set ys. timestamp s < t)"
    by (simp add: filter_empty_conv)
  with True t show ?thesis
    by (simp add: spec_prob_before_def label_row_def make_labels_def Let_def)
next
  case False
  then have ex: "\<exists>s \<in> set ys. timestamp s < t"
    by (simp add: filter_empty_conv)
  let ?s = "last (filter (\<lambda>s. timestamp s < t) ys)"
  from last_filter_greatest [OF srt False]
  have s: "?s \<in> set ys" "timestamp ?s < t"
    "\<forall>s' \<in> set ys. timestamp s' < t \<longrightarrow> timestamp s' \<le> timestamp ?s"
    by blast+
  have "prob_before (label_row w ys row) = winning_prob w ?s"
    using False t by (simp add: label_row_def make_labels_def winning_prob_def Let_def)
  with ex s show ?thesis
    unfolding spec_prob_before_def by (simp only: if_True) blast
qed

lemma label_row_prob_after:
  assumes srt: "sorted (map timestamp ys)" and t: "scored_at row = Some t"
  shows "spec_prob_after w ys t (prob_after (label_row w ys row))"
proof (cases "filter (\<lambda>s. t \<le> timestamp s) ys = []")
  case True
  then have "\<not> (\<exists>s \<in> set ys. t \<le> timestamp s)"
    by (simp add: filter_empty_conv)
  with True t show ?thesis
    by (simp add: spec_prob_after_def label_row_def make_labels_def Let_def)
next
  case False
  then have ex: "\<exists>s \<in> set ys. t \<le> timestamp s"
    by (simp add: filter_empty_conv)
  let ?s = "hd (filter (\<lambda>s. t \<le> timestamp s) ys)"
  from hd_filter_least [OF srt False]
  have s: "?s \<in> set ys" "t \<le> timestamp ?s"
    "\<forall>s' \<in> set ys. t \<le> timestamp s' \<longrightarrow> timestamp ?s \<le> timestamp s'"
    by blast+
  have "prob_after (label_row w ys row) = winning_prob w ?s"
    using False t by (simp add: label_row_def make_labels_def winning_prob_def Let_def)
  with ex s show ?thesis
    unfolding spec_prob_after_def by (simp only: if_True) blast
qed

lemma spec_prob_before_cong:
  "set ys = set xs \<Longrightarrow> spec_prob_before w ys t p = spec_prob_before w xs t p"
  by (simp add: spec_prob_before_def)

lemma spec_prob_after_cong:
  "set ys = set xs \<Longrightarrow> spec_prob_after w ys t p = spec_prob_after w xs t p"
  by (simp add: spec_prob_after_def)

lemma label_row_positional_before:
  assumes srt: "sorted (map timestamp snapshots)" and t: "scored_at row = Some t"
  shows "positional_prob_before w snapshots t (prob_before (label_row w snapshots row))"
proof (cases "filter (\<lambda>s. timestamp s < t) snapshots = []")
  case True
  then have "\<not> (\<exists>s \<in> set snapshots. timestamp s < t)"
    by (simp add: filter_empty_conv)
  with True t show ?thesis
    by (simp add: positional_prob_before_def label_row_def make_labels_def Let_def)
next
  case False
  then have ex: "\<exists>s \<in> set snapshots. timestamp s < t"
    by (simp add: filter_empty_conv)
  from last_before_index [OF srt False] obtain i where i: "i < length snapshots"
    "snapshots ! i = last (filter (\<lambda>s. timestamp s < t) snapshots)"
    "timestamp (snapshots ! i) < t"
    "\<forall>j < length snapshots. timestamp (snapshots ! j) < t \<longrightarrow> j \<le> i"
    by blast
  then have "is_last_before snapshots t i"
    by (simp add: is_last_before_def)
  moreover have "prob_before (label_row w snapshots row) = winning_prob w (snapshots ! i)"
    using False t i(2) by (simp add: label_row_def make_labels_def winning_prob_def Let_def)
  ultimately show ?thesis
    using ex i(1) by (auto simp: positional_prob_before_def)
qed

lemma label_row_positional_after:
  assumes srt: "sorted (map timestamp snapshots)" and t: "scored_at row = Some t"
  shows "positional_prob_after w snapshots t (prob_after (label_row w snapshots row))"
proof (cases "filter (\<lambda>s. t \<le> timestamp s) snapshots = []")
  case True
  then have "\<not> (\<exists>s \<in> set snapshots. t \<le> timestamp s)"
    by (simp add: filter_empty_conv)
  with True t show ?thesis
    by (simp add: positional_prob_after_def label_row_def make_labels_def Let_def)
next
  case False
  then have ex: "\<exists>s \<in> set snapshots. t \<le> timestamp s"
    by (simp add: filter_empty_conv)
  from first_after_index [OF srt False] obtain i where i: "i < length snapshots"
    "snapshots ! i = hd (filter (\<lambda>s. t \<le> timestamp s) snapshots)"
    "t \<le> timestamp (snapshots ! i)"
    "\<forall>j < length snapshots. t \<le> timestamp (snapshots ! j) \<longrightarrow> i \<le> j"
    by blast
  then have "is_first_at_or_after snapshots t i"
    by (simp add: is_first_at_or_after_def)
  moreover have "prob_after (label_row w snapshots row) = winning_prob w (snapshots ! i)"
    using False t i(2) by (simp add: label_row_def make_labels_def winning_prob_def Let_def)
  ultimately show ?thesis
    using ex i(1) by (auto simp: positional_prob_after_def)
qed

lemma label_row_moved:
  "moved_toward_truth (label_row w snapshots row)
     = (prob_after (label_row w snapshots row) - prob_before (label_row w snapshots row) > 0)"
  by (simp add: label_row_def make_labels_def Let_def split: option.splits)

text \<open>
  Claim C3: for a non-empty snapshot sequence, label construction returns one row per
  post; for every post with a scoring timestamp \<open>t\<close> the row is labelled, its
  \<open>prob_before\<close> is the winning-outcome probability of a last snapshot strictly before
  \<open>t\<close> (\<open>0.5\<close> when there is none), its \<open>prob_after\<close> is that of a first snapshot at or
  after \<open>t\<close> (\<open>0.5\<close> when there is none), and \<open>moved_toward_truth\<close> is
  \<open>prob_after - prob_before > 0\<close>, so a difference of exactly \<open>0\<close> is labelled false.
  This holds whatever order the library's sort gives to rows with equal keys. When the
  sequence is in strictly ascending order of timestamps, the two snapshots are the ones
  at the last position before \<open>t\<close> and at the first position at or after \<open>t\<close>.
\<close>

theorem label_posts_with_truth_labels:
  fixes snapshots :: "('t::linorder) Snapshot list" and posts :: "('t, 'a) Post list"
  assumes "is_reordering sort_posts" and "is_sort_values timestamp sort_snapshots"
    and "snapshots \<noteq> []"
  shows "length (label_posts_with_truth sort_posts sort_snapshots posts w snapshots) = length posts
    \<and> set (map post (label_posts_with_truth sort_posts sort_snapshots posts w snapshots)) = set posts
    \<and> (\<forall>r \<in> set (label_posts_with_truth sort_posts sort_snapshots posts w snapshots).
         \<forall>t. scored_at (post r) = Some t \<longrightarrow>
         (\<exists>l. labels r = Some l
            \<and> spec_prob_before w snapshots t (prob_before l)
            \<and> spec_prob_after w snapshots t (prob_after l)
            \<and> (sorted_wrt (<) (map timestamp snapshots) \<longrightarrow>
                 positional_prob_before w snapshots t (prob_before l)
                 \<and> positional_prob_after w snapshots t (prob_after l))
            \<and> moved_toward_truth l = (prob_after l - prob_before l > 0)
            \<and> (prob_after l - prob_before l = 0 \<longrightarrow> \<not> moved_toward_truth l)))"
proof -
  let ?out = "label_posts_with_truth sort_posts sort_snapshots posts w snapshots"
  let ?ys = "sort_snapshots snapshots"
  from assms(2) have ys_set: "set ?ys = set snapshots" and ys_sorted: "sorted (map timestamp ?ys)"
    by (simp_all add: is_sort_values_def)
  from assms(1) have posts_set: "set (sort_posts posts) = set posts"
    and posts_len: "length (sort_posts posts) = length posts"
    by (simp_all add: is_reordering_def)
  have out: "?out = map (\<lambda>row. \<lparr>post = row, labels = Some (label_row w ?ys row)\<rparr>) (sort_posts posts)"
  proof (cases "posts = []")
    case True
    with posts_len have "sort_posts posts = []"
      by simp
    with True show ?thesis
      by (simp add: label_posts_with_truth_rows [OF assms(3)])
  next
    case False
    then show ?thesis
      by (simp add: label_posts_with_truth_rows [OF assms(3)])
  qed
  have len: "length ?out = length posts"
    by (simp add: out posts_len)
  have posts_eq: "set (map post ?out) = set posts"
    by (simp add: out comp_def posts_set)
  have rows: "\<exists>l. labels r = Some l
            \<and> spec_prob_before w snapshots t (prob_before l)
            \<and> spec_prob_after w snapshots t (prob_after l)
            \<and> (sorted_wrt (<) (map timestamp snapshots) \<longrightarrow>
                 positional_prob_before w snapshots t (prob_before l)
                 \<and> positional_prob_after w snapshots t (prob_after l))
            \<and> moved_toward_truth l = (prob_after l - prob_before l > 0)
            \<and> (prob_after l - prob_before l = 0 \<longrightarrow> \<not> moved_toward_truth l)"
    if r: "r \<in> set ?out" and t: "scored_at (post r) = Some t" for r t
  proof -
    from r out obtain row where row: "r = \<lparr>post = row, labels = Some (label_row w ?ys row)\<rparr>"
      by auto
    with t have t': "scored_at row = Some t"
      by simp
    let ?l = "label_row w ?ys row"
    have before: "spec_prob_before w snapshots t (prob_before ?l)"
      using label_row_prob_before [OF ys_sorted t', of w]
      by (simp add: spec_prob_before_cong [OF ys_set])
    have after: "spec_prob_after w snapshots t (prob_after ?l)"
      using label_row_prob_after [OF ys_sorted t', of w]
      by (simp add: spec_prob_after_cong [OF ys_set])
    have positional: "positional_prob_before w snapshots t (prob_before ?l)
        \<and> positional_prob_after w snapshots t (prob_after ?l)"
      if strict: "sorted_wrt (<) (map timestamp snapshots)"
    proof -
      have same: "?ys = snapshots"
        using assms(2) strict by (rule sort_values_unique)
      have srt: "sorted (map timestamp snapshots)"
        using strict by (simp add: strict_sorted_iff)
      show ?thesis
        using label_row_positional_before [OF srt t', of w]
          label_row_positional_after [OF srt t', of w]
        by (simp add: same)
    qed
    show ?thesis
      using before after positional label_row_moved [of w ?ys row]
      by (simp add: row)
  qed
  from len posts_eq rows show ?thesis
    by blast
qed

lemma sort_key_is_sort_values: "is_sort_values key (sort_key key)"
  by (simp add: is_sort_values_def)

lemma sort_key_is_reordering: "is_reordering (sort_key key)"
  by (simp add: is_reordering_def)

theorem label_posts_with_truth_labels_witness:
  "is_reordering (sort_key (\<lambda>p :: (nat, string) Post. case scored_at p of Some t \<Rightarrow> t | None \<Rightarrow> 0))
   \<and> is_sort_values timestamp (sort_key (timestamp :: nat Snapshot \<Rightarrow> nat))
   \<and> [\<lparr>timestamp = 100 :: nat, probabilities = [(''YES'', 7 / 10), (''NO'', 3 / 10)]\<rparr>] \<noteq> []
   \<and> map labels (label_posts_with_truth
         (sort_key (\<lambda>p. case scored_at p of Some t \<Rightarrow> t | None \<Rightarrow> 0)) (sort_key timestamp)
         [\<lparr>scored_at = Some 101, other_columns = ''post-1''\<rparr>] ''YES''
         [\<lparr>timestamp = 100 :: nat, probabilities = [(''YES'', 7 / 10), (''NO'', 3 / 10)]\<rparr>])
       = [Some \<lparr>prob_before = 7 / 10, prob_after = 1 / 2, delta_prob = - (1 / 5),
                moved_toward_truth = False\<rparr>]
   \<and> list_all (\<lambda>r. \<exists>l. labels r = Some l
            \<and> spec_prob_before ''YES''
                 [\<lparr>timestamp = 100 :: nat, probabilities = [(''YES'', 7 / 10), (''NO'', 3 / 10)]\<rparr>]
                 101 (prob_before l)
            \<and> spec_prob_after ''YES''
                 [\<lparr>timestamp = 100 :: nat, probabilities = [(''YES'', 7 / 10), (''NO'', 3 / 10)]\<rparr>]
                 101 (prob_after l)
            \<and> positional_prob_before ''YES''
                 [\<lparr>timestamp = 100 :: nat, probabilities = [(''YES'', 7 / 10), (''NO'', 3 / 10)]\<rparr>]
                 101 (prob_before l)
            \<and> positional_prob_after ''YES''
                 [\<lparr>timestamp = 100 :: nat, probabilities = [(''YES'', 7 / 10), (''NO'', 3 / 10)]\<rparr>]
                 101 (prob_after l)
            \<and> moved_toward_truth l = (prob_after l - prob_before l > 0))
        (label_posts_with_truth
           (sort_key (\<lambda>p. case scored_at p of Some t \<Rightarrow> t | None \<Rightarrow> 0)) (sort_key timestamp)
           [\<lparr>scored_at = Some 101, other_columns = ''post-1''\<rparr>] ''YES''
           [\<lparr>timestamp = 100 :: nat, probabilities = [(''YES'', 7 / 10), (''NO'', 3 / 10)]\<rparr>])"
proof -
  let ?snaps = "[\<lparr>timestamp = 100 :: nat, probabilities = [(''YES'', 7 / 10), (''NO'', 3 / 10)]\<rparr>]"
  let ?posts = "[\<lparr>scored_at = Some (101 :: nat), other_columns = ''post-1''\<rparr>]"
  let ?sp = "sort_key (\<lambda>p :: (nat, string) Post. case scored_at p of Some t \<Rightarrow> t | None \<Rightarrow> 0)"
  let ?ss = "sort_key (timestamp :: nat Snapshot \<Rightarrow> nat)"
  let ?out = "label_posts_with_truth ?sp ?ss ?posts ''YES'' ?snaps"
  have rp: "is_reordering ?sp"
    by (rule sort_key_is_reordering)
  have sv: "is_sort_values timestamp ?ss"
    by (rule sort_key_is_sort_values)
  have ne: "?snaps \<noteq> []"
    by simp
  have strict: "sorted_wrt (<) (map timestamp ?snaps)"
    by simp
  note main = label_posts_with_truth_labels [OF rp sv ne, of ?posts "''YES''"]
  have eval: "map labels ?out = [Some \<lparr>prob_before = 7 / 10, prob_after = 1 / 2,
      delta_prob = - (1 / 5), moved_toward_truth = False\<rparr>]"
    by (simp add: label_posts_with_truth_def label_row_def make_labels_def dict_get_def)
  have "scored_at (post r) = Some 101" if "r \<in> set ?out" for r
  proof -
    from that have "post r \<in> set (map post ?out)"
      by simp
    with main have "post r \<in> set ?posts"
      by simp
    then show ?thesis
      by simp
  qed
  with main strict have "\<forall>r \<in> set ?out. \<exists>l. labels r = Some l
      \<and> spec_prob_before ''YES'' ?snaps 101 (prob_before l)
      \<and> spec_prob_after ''YES'' ?snaps 101 (prob_after l)
      \<and> positional_prob_before ''YES'' ?snaps 101 (prob_before l)
      \<and> positional_prob_after ''YES'' ?snaps 101 (prob_after l)
      \<and> moved_toward_truth l = (prob_after l - prob_before l > 0)"
    by blast
  then have all: "list_all (\<lambda>r. \<exists>l. labels r = Some l
      \<and> spec_prob_before ''YES'' ?snaps 101 (prob_before l)
      \<and> spec_prob_after ''YES'' ?snaps 101 (prob_after l)
      \<and> positional_prob_before ''YES'' ?snaps 101 (prob_before l)
      \<and> positional_prob_after ''YES'' ?snaps 101 (prob_after l)
      \<and> moved_toward_truth l = (prob_after l - prob_before l > 0)) ?out"
    by (simp only: list_all_iff)
  from rp sv ne eval all show ?thesis
    by (intro conjI)
qed

subsection \<open>Feature extraction\<close>


lemma values_mean_spec: "values_mean vs = spec_mean vs"
  by (simp add: values_mean_def spec_mean_def)

lemma values_std_sample:
  "values_std 1 vs = (if length vs < 2 then None else Some (sample_std vs))"
  by (auto simp: values_std_def sample_std_def values_mean_spec)

lemma values_max_Max: "vs \<noteq> [] \<Longrightarrow> values_max vs = Max (set vs)"
proof (cases vs)
  case (Cons a list)
  then show ?thesis
    using Max.set_eq_fold [of a list] by (simp add: values_max_def)
qed simp

lemma values_min_Min: "vs \<noteq> [] \<Longrightarrow> values_min vs = Min (set vs)"
proof (cases vs)
  case (Cons a list)
  then show ?thesis
    using Min.set_eq_fold [of a list] by (simp add: values_min_def)
qed simp

lemma duration_features_forms:
  "duration_features f m = []
   \<or> (\<exists>a b. duration_features f m = [(''duration_hours'', a), (''duration_days'', b)])"
proof (cases "truthy (created_at m) \<and> truthy (resolved_at m)")
  case False
  then have "duration_features f m = []"
    unfolding duration_features_def by (rule if_not_P)
  then show ?thesis
    by simp
next
  case True
  have eq: "duration_features f m =
     (case (to_datetime_cell f (created_at m), to_datetime_cell f (resolved_at m)) of
        (Some created, Some resolved) \<Rightarrow>
          (case total_seconds_between resolved created of
             Some (Some duration) \<Rightarrow>
               [(''duration_hours'', Some (duration / 3600)),
                (''duration_days'', Some (duration / 86400))]
           | Some None \<Rightarrow> [(''duration_hours'', None), (''duration_days'', None)]
           | None \<Rightarrow> [(''duration_hours'', Some 0), (''duration_days'', Some 0)])
      | _ \<Rightarrow> [(''duration_hours'', Some 0), (''duration_days'', Some 0)])"
    unfolding duration_features_def using True by (rule if_P)
  show ?thesis
  proof (cases "to_datetime_cell f (created_at m)")
    case None
    then show ?thesis
      by (simp add: eq)
  next
    case c: (Some created)
    show ?thesis
    proof (cases "to_datetime_cell f (resolved_at m)")
      case None
      with c show ?thesis
        by (simp add: eq)
    next
      case r: (Some resolved)
      show ?thesis
      proof (cases "total_seconds_between resolved created")
        case None
        with c r show ?thesis
          by (simp add: eq)
      next
        case (Some d)
        with c r show ?thesis
          by (cases d) (simp_all add: eq)
      qed
    qed
  qed
qed

lemma map_of_duration_features_other:
  "k \<noteq> ''duration_hours'' \<Longrightarrow> k \<noteq> ''duration_days'' \<Longrightarrow> map_of (duration_features f m) k = None"
  using duration_features_forms [of f m] by auto

lemma map_of_score_aggregates_other:
  "k \<noteq> ''mean_'' @ c \<Longrightarrow> k \<noteq> ''std_'' @ c \<Longrightarrow> k \<noteq> ''max_'' @ c \<Longrightarrow> k \<noteq> ''min_'' @ c
    \<Longrightarrow> map_of (score_aggregates df c) k = None"
  by (auto simp: score_aggregates_def Let_def split: option.splits)

lemma map_of_score_aggregates_hit:
  assumes "map_of (num_cols df) c = Some xs" and "dropna xs \<noteq> []"
  shows "map_of (score_aggregates df c) (''mean_'' @ c) = Some (Some (values_mean (dropna xs)))"
    and "map_of (score_aggregates df c) (''std_'' @ c) = Some (values_std 1 (dropna xs))"
    and "map_of (score_aggregates df c) (''max_'' @ c) = Some (Some (values_max (dropna xs)))"
    and "map_of (score_aggregates df c) (''min_'' @ c) = Some (Some (values_min (dropna xs)))"
  using assms by (simp_all add: score_aggregates_def Let_def)

lemma map_of_append_miss: "map_of xs k = None \<Longrightarrow> map_of (xs @ ys) k = map_of ys k"
  by (simp add: map_add_def)

lemma map_of_append_hit: "map_of xs k = Some v \<Longrightarrow> map_of (xs @ ys) k = Some v"
  by (simp add: map_add_def)

lemma lookup_score_blocks:
  assumes "col \<in> set cs" and hit: "map_of (score_aggregates df col) k = Some v"
    and miss: "\<And>c. c \<noteq> col \<Longrightarrow> map_of (score_aggregates df c) k = None"
  shows "map_of (concat (map (score_aggregates df) cs)) k = Some v"
  using assms(1)
proof (induction cs)
  case Nil
  then show ?case by simp
next
  case (Cons c cs)
  show ?case
  proof (cases "c = col")
    case True
    with hit show ?thesis
      by (simp add: map_add_def)
  next
    case False
    with Cons have "map_of (concat (map (score_aggregates df) cs)) k = Some v"
      by simp
    with miss [OF False] show ?thesis
      by (simp add: map_add_def)
  qed
qed

lemma lookup_in_third:
  "map_of A k = None \<Longrightarrow> map_of B k = None \<Longrightarrow> map_of S k = Some v
    \<Longrightarrow> map_of (A @ B @ S @ R) k = Some v"
  by (simp add: map_add_def)

lemma prepare_market_features_score_lookup:
  assumes ne: "\<not> frame_empty posts_df" and col: "col \<in> set score_columns"
    and hit: "map_of (score_aggregates posts_df col) k = Some v"
    and miss: "\<And>c. c \<noteq> col \<Longrightarrow> map_of (score_aggregates posts_df c) k = None"
    and k: "k \<noteq> ''K''" "k \<noteq> ''duration_hours''" "k \<noteq> ''duration_days''"
      "k \<noteq> ''num_posts''" "k \<noteq> ''posts_per_hour''"
  shows "map_of (prepare_market_features to_datetime market posts_df) k = Some v"
proof -
  have A: "map_of ((''K'', Some 2) # duration_features to_datetime market) k = None"
    using k by (simp add: map_of_duration_features_other)
  have B: "map_of [(''num_posts'', x), (''posts_per_hour'', y)] k = None"
    for x y :: "real option"
    using k by simp
  have S: "map_of (concat (map (score_aggregates posts_df) score_columns)) k = Some v"
    using col hit miss by (rule lookup_score_blocks)
  show ?thesis
    apply (simp only: prepare_market_features_def Let_def ne if_True not_False_eq_True)
    apply (rule lookup_in_third [OF A B S])
    done
qed

text \<open>
  Claim C4, as stated, says that the aggregation computes the population standard
  deviation. \<^verbatim>\<open>values.std()\<close> is the library's default, the sample standard
  deviation (divisor \<open>n - 1\<close>): for the relevance scores \<open>0, 1, 2\<close> the feature is \<open>1\<close>,
  while the population standard deviation is the square root of \<open>2/3\<close>.
\<close>

theorem prepare_market_features_std_counterexample:
  "map_of (prepare_market_features example_to_datetime
       \<lparr>ident = ''m1'', created_at = NoValue, resolved_at = NoValue, resolved_outcome_id = Some ''YES'',
        final_probabilities = [(''YES'', 0.9), (''NO'', 0.1)]\<rparr>
       \<lparr>n_rows = 3, market_id_col = None, author_id_col = None,
        num_cols = [(''relevance'', [Some 0, Some 1, Some 2])]\<rparr>) ''std_relevance''
     = Some (Some 1)
   \<and> population_std (dropna [Some 0, Some 1, Some 2]) = sqrt (2 / 3)
   \<and> sqrt (2 / 3) \<noteq> (1 :: real)"
proof -
  let ?df = "\<lparr>n_rows = 3, market_id_col = None, author_id_col = None,
        num_cols = [(''relevance'', [Some 0, Some 1, Some (2 :: real)])]\<rparr>"
  have ne: "\<not> frame_empty ?df"
    by (simp add: frame_empty_def)
  have col: "''relevance'' \<in> set score_columns"
    by (simp add: score_columns_def)
  have dn: "dropna [Some 0, Some 1, Some (2 :: real)] = [0, 1, 2]"
    by (simp add: dropna_def)
  have "values_std 1 [0, 1, 2 :: real] = Some 1"
    by (simp add: values_std_def values_mean_def)
  then have hit: "map_of (score_aggregates ?df ''relevance'') ''std_relevance'' = Some (Some 1)"
    by (simp add: score_aggregates_def dn Let_def)
  have miss: "map_of (score_aggregates ?df c) ''std_relevance'' = None" if "c \<noteq> ''relevance''" for c
    using that by (intro map_of_score_aggregates_other) auto
  have "map_of (prepare_market_features example_to_datetime
       \<lparr>ident = ''m1'', created_at = NoValue, resolved_at = NoValue, resolved_outcome_id = Some ''YES'',
        final_probabilities = [(''YES'', 0.9), (''NO'', 0.1)]\<rparr> ?df) ''std_relevance''
     = Some (Some 1)"
    using ne col hit miss by (rule prepare_market_features_score_lookup) simp_all
  moreover have "population_std (dropna [Some 0, Some 1, Some 2]) = sqrt (2 / 3)"
    by (simp add: population_std_def spec_mean_def dn)
  moreover have "sqrt (2 / 3) \<noteq> (1 :: real)"
    by simp
  ultimately show ?thesis
    by blast
qed

text \<open>
  Claim C4 (amended): for every non-empty post collection and every scorable score column
  present in it with at least one non-null value, the market-level aggregation stores
  the mean, the maximum and the minimum of the non-null values of the column, and as
  standard deviation their sample standard deviation (divisor \<open>n - 1\<close>), which is
  undefined (NaN) when the column has a single non-null value.
\<close>

theorem prepare_market_features_score_aggregates:
  assumes ne: "\<not> frame_empty posts_df" and col: "col \<in> set score_columns"
    and xs: "map_of (num_cols posts_df) col = Some xs" and vs: "dropna xs \<noteq> []"
  shows "map_of (prepare_market_features to_datetime market posts_df) (''mean_'' @ col)
        = Some (Some (spec_mean (dropna xs)))
     \<and> map_of (prepare_market_features to_datetime market posts_df) (''std_'' @ col)
        = Some (if length (dropna xs) < 2 then None else Some (sample_std (dropna xs)))
     \<and> map_of (prepare_market_features to_datetime market posts_df) (''max_'' @ col)
        = Some (Some (Max (set (dropna xs))))
     \<and> map_of (prepare_market_features to_datetime market posts_df) (''min_'' @ col)
        = Some (Some (Min (set (dropna xs))))"
proof -
  note hit = map_of_score_aggregates_hit [OF xs vs]
  have m1: "map_of (prepare_market_features to_datetime market posts_df) (''mean_'' @ col)
        = Some (Some (values_mean (dropna xs)))"
    using ne col hit(1)
    by (rule prepare_market_features_score_lookup)
      (simp_all add: map_of_score_aggregates_other)
  have m2: "map_of (prepare_market_features to_datetime market posts_df) (''std_'' @ col)
        = Some (values_std 1 (dropna xs))"
    using ne col hit(2)
    by (rule prepare_market_features_score_lookup)
      (simp_all add: map_of_score_aggregates_other)
  have m3: "map_of (prepare_market_features to_datetime market posts_df) (''max_'' @ col)
        = Some (Some (values_max (dropna xs)))"
    using ne col hit(3)
    by (rule prepare_market_features_score_lookup)
      (simp_all add: map_of_score_aggregates_other)
  have m4: "map_of (prepare_market_features to_datetime market posts_df) (''min_'' @ col)
        = Some (Some (values_min (dropna xs)))"
    using ne col hit(4)
    by (rule prepare_market_features_score_lookup)
      (simp_all add: map_of_score_aggregates_other)
  show ?thesis
    using m1 [unfolded values_mean_spec] m2 [unfolded values_std_sample]
      m3 [unfolded values_max_Max [OF vs]] m4 [unfolded values_min_Min [OF vs]]
    by blast
qed

theorem prepare_market_features_score_aggregates_witness:
  "\<not> frame_empty \<lparr>n_rows = 3, market_id_col = None, author_id_col = None,
        num_cols = [(''relevance'', [Some 0, None, Some 2])]\<rparr>
   \<and> ''relevance'' \<in> set score_columns
   \<and> dropna [Some 0, None, Some (2 :: real)] = [0, 2]
   \<and> map_of (prepare_market_features example_to_datetime
       \<lparr>ident = ''m1'', created_at = NoValue, resolved_at = NoValue, resolved_outcome_id = Some ''YES'',
        final_probabilities = [(''YES'', 0.9), (''NO'', 0.1)]\<rparr>
       \<lparr>n_rows = 3, market_id_col = None, author_id_col = None,
        num_cols = [(''relevance'', [Some 0, None, Some 2])]\<rparr>) ''mean_relevance''
     = Some (Some 1)
   \<and> map_of (prepare_market_features example_to_datetime
       \<lparr>ident = ''m1'', created_at = NoValue, resolved_at = NoValue, resolved_outcome_id = Some ''YES'',
        final_probabilities = [(''YES'', 0.9), (''NO'', 0.1)]\<rparr>
       \<lparr>n_rows = 3, market_id_col = None, author_id_col = None,
        num_cols = [(''relevance'', [Some 0, None, Some 2])]\<rparr>) ''std_relevance''
     = Some (Some (sqrt 2))
   \<and> map_of (prepare_market_features example_to_datetime
       \<lparr>ident = ''m1'', created_at = NoValue, resolved_at = NoValue, resolved_outcome_id = Some ''YES'',
        final_probabilities = [(''YES'', 0.9), (''NO'', 0.1)]\<rparr>
       \<lparr>n_rows = 3, market_id_col = None, author_id_col = None,
        num_cols = [(''relevance'', [Some 0, None, Some 2])]\<rparr>) ''max_relevance''
     = Some (Some 2)
   \<and> map_of (prepare_market_features example_to_datetime
       \<lparr>ident = ''m1'', created_at = NoValue, resolved_at = NoValue, resolved_outcome_id = Some ''YES'',
        final_probabilities = [(''YES'', 0.9), (''NO'', 0.1)]\<rparr>
       \<lparr>n_rows = 3, market_id_col = None, author_id_col = None,
        num_cols = [(''relevance'', [Some 0, None, Some 2])]\<rparr>) ''min_relevance''
     = Some (Some 0)"
proof -
  let ?df = "\<lparr>n_rows = 3, market_id_col = None, author_id_col = None,
        num_cols = [(''relevance'', [Some 0, None, Some (2 :: real)])]\<rparr>"
  have ne: "\<not> frame_empty ?df"
    by (simp add: frame_empty_def)
  have col: "''relevance'' \<in> set score_columns"
    by (simp add: score_columns_def)
  have xs: "map_of (num_cols ?df) ''relevance'' = Some [Some 0, None, Some 2]"
    by simp
  have dn: "dropna [Some 0, None, Some (2 :: real)] = [0, 2]"
    by (simp add: dropna_def)
  have vs: "dropna [Some 0, None, Some (2 :: real)] \<noteq> []"
    by (simp add: dn)
  have mean: "spec_mean [0, 2] = 1" and std: "sample_std [0, 2] = sqrt 2"
    by (simp_all add: spec_mean_def sample_std_def)
  show ?thesis
    using prepare_market_features_score_aggregates [OF ne col xs vs,
        of example_to_datetime
        "\<lparr>ident = ''m1'', created_at = NoValue, resolved_at = NoValue, resolved_outcome_id = Some ''YES'',
          final_probabilities = [(''YES'', 0.9), (''NO'', 0.1)]\<rparr>"]
      ne col
    by (simp add: dn mean std)
qed

text \<open>
  Claim C5, as stated, says that an empty post collection yields the value zero for every
  per-column aggregate feature rather than leaving the feature absent. The branch for an
  empty collection stores \<open>num_posts = 0\<close> and \<open>posts_per_hour = 0\<close> only: the aggregate
  features are absent from the result.
\<close>

theorem prepare_market_features_empty_counterexample:
  "prepare_market_features example_to_datetime
       \<lparr>ident = ''m1'', created_at = Value 0, resolved_at = Value 86400,
        resolved_outcome_id = Some ''YES'', final_probabilities = [(''YES'', 0.9), (''NO'', 0.1)]\<rparr>
       empty_frame
     = [(''K'', Some 2), (''duration_hours'', Some 24), (''duration_days'', Some 1),
        (''num_posts'', Some 0), (''posts_per_hour'', Some 0)]
   \<and> map_of (prepare_market_features example_to_datetime
       \<lparr>ident = ''m1'', created_at = Value 0, resolved_at = Value 86400,
        resolved_outcome_id = Some ''YES'', final_probabilities = [(''YES'', 0.9), (''NO'', 0.1)]\<rparr>
       empty_frame) ''mean_relevance'' \<noteq> Some (Some 0)"
  by (simp add: prepare_market_features_def frame_empty_def empty_frame_def duration_features_def
      example_to_datetime_def)

text \<open>
  Claim C5 (amended): for every market record, market-level feature extraction with an
  empty post collection returns the basic features (\<open>K\<close> and, when both timestamps are
  present, the two duration features) followed by \<open>num_posts = 0\<close> and
  \<open>posts_per_hour = 0\<close>; every per-column aggregate feature (mean, standard deviation,
  max, min of each scorable column) is absent from the result.
\<close>

theorem prepare_market_features_empty:
  assumes "frame_empty posts_df"
  shows "prepare_market_features to_datetime market posts_df
       = (''K'', Some 2) # duration_features to_datetime market
         @ [(''num_posts'', Some 0), (''posts_per_hour'', Some 0)]
     \<and> (\<forall>name \<in> set aggregate_names.
          map_of (prepare_market_features to_datetime market posts_df) name = None)"
proof -
  have eq: "prepare_market_features to_datetime market posts_df
       = (''K'', Some 2) # duration_features to_datetime market
         @ [(''num_posts'', Some 0), (''posts_per_hour'', Some 0)]"
    using assms by (simp add: prepare_market_features_def)
  have "map_of ((''K'', Some 2) # duration_features to_datetime market
         @ [(''num_posts'', Some 0), (''posts_per_hour'', Some 0)]) name = None"
    if "name \<in> set aggregate_names" for name
  proof -
    from that have "name \<noteq> ''K''" "name \<noteq> ''duration_hours''" "name \<noteq> ''duration_days''"
      "name \<noteq> ''num_posts''" "name \<noteq> ''posts_per_hour''"
      by (auto simp: aggregate_names_def score_columns_def)
    then show ?thesis
      by (simp add: map_add_def map_of_duration_features_other)
  qed
  with eq show ?thesis
    by simp
qed

theorem prepare_market_features_empty_witness:
  "frame_empty empty_frame
   \<and> prepare_market_features example_to_datetime
       \<lparr>ident = ''m1'', created_at = Value 0, resolved_at = Value 86400,
        resolved_outcome_id = Some ''YES'', final_probabilities = [(''YES'', 0.9), (''NO'', 0.1)]\<rparr>
       empty_frame
     = [(''K'', Some 2), (''duration_hours'', Some 24), (''duration_days'', Some 1),
        (''num_posts'', Some 0), (''posts_per_hour'', Some 0)]
   \<and> list_all (\<lambda>name. map_of (prepare_market_features example_to_datetime
       \<lparr>ident = ''m1'', created_at = Value 0, resolved_at = Value 86400,
        resolved_outcome_id = Some ''YES'', final_probabilities = [(''YES'', 0.9), (''NO'', 0.1)]\<rparr>
       empty_frame) name = None) aggregate_names"
proof -
  let ?m = "\<lparr>ident = ''m1'', created_at = Value (0 :: nat), resolved_at = Value 86400,
          resolved_outcome_id = Some ''YES'',
          final_probabilities = [(''YES'', 0.9), (''NO'', 0.1)]\<rparr>"
  have e: "frame_empty empty_frame"
    by (simp add: frame_empty_def empty_frame_def)
  note main = prepare_market_features_empty [OF e, of example_to_datetime ?m]
  from main have "prepare_market_features example_to_datetime ?m empty_frame
     = (''K'', Some 2) # duration_features example_to_datetime ?m
         @ [(''num_posts'', Some 0), (''posts_per_hour'', Some 0)]"
    by (rule conjunct1)
  then have first: "prepare_market_features example_to_datetime ?m empty_frame
     = [(''K'', Some 2), (''duration_hours'', Some 24), (''duration_days'', Some 1),
        (''num_posts'', Some 0), (''posts_per_hour'', Some 0)]"
    by (simp add: duration_features_def example_to_datetime_def)
  from main have "\<forall>name \<in> set aggregate_names.
      map_of (prepare_market_features example_to_datetime ?m empty_frame) name = None"
    by (rule conjunct2)
  then have second: "list_all (\<lambda>name.
      map_of (prepare_market_features example_to_datetime ?m empty_frame) name = None)
      aggregate_names"
    by (simp only: list_all_iff)
  from e first second show ?thesis
    by (intro conjI)
qed

subsection \<open>Training the correction model\<close>

lemma cv_loop_append:
  "cv_loop run (xs @ ys) i fm bm bs =
     (case cv_loop run xs i fm bm bs of
        Inl e \<Rightarrow> Inl e
      | Inr (fm', bm', bs') \<Rightarrow> cv_loop run ys (i + length xs) fm' bm' bs')"
  by (induction xs arbitrary: i fm bm bs) (auto simp: Let_def split: sum.splits)

lemma cv_loop_invariant:
  assumes "\<forall>s \<in> set splits. \<exists>m r. run s = Inr (m, r)"
  shows "\<exists>fm bm bs. cv_loop run splits 0 [] None None = Inr (fm, bm, bs)
      \<and> length fm = length splits
      \<and> (splits = [] \<longrightarrow> bm = None \<and> bs = None)
      \<and> (splits \<noteq> [] \<longrightarrow> (\<exists>k m r. bm = Some m \<and> bs = Some r \<and> is_best_fold run splits k m r))"
  using assms
proof (induction splits rule: rev_induct)
  case Nil
  then show ?case by simp
next
  case (snoc x xs)
  from snoc.prems have "\<forall>s \<in> set xs. \<exists>m r. run s = Inr (m, r)"
    by simp
  from snoc.IH [OF this] obtain fm bm bs where run_xs: "cv_loop run xs 0 [] None None = Inr (fm, bm, bs)"
    and len: "length fm = length xs"
    and empty: "xs = [] \<longrightarrow> bm = None \<and> bs = None"
    and best: "xs \<noteq> [] \<longrightarrow> (\<exists>k m r. bm = Some m \<and> bs = Some r \<and> is_best_fold run xs k m r)"
    by blast
  from snoc.prems obtain mx rx where x: "run x = Inr (mx, rx)"
    by auto
  show ?case
  proof (cases "xs = []")
    case True
    with empty have "bm = None" "bs = None" by simp_all
    with run_xs x True len show ?thesis
      by (auto simp: cv_loop_append is_best_fold_def)
  next
    case False
    with best obtain k m r where b: "bm = Some m" "bs = Some r" and bf: "is_best_fold run xs k m r"
      by blast
    from bf have k: "k < length xs" and rk: "run (xs ! k) = Inr (m, r)"
      and le: "\<And>j m' r'. j < length xs \<Longrightarrow> run (xs ! j) = Inr (m', r') \<Longrightarrow> r \<le> r'"
      and lt: "\<And>j m' r'. j < k \<Longrightarrow> run (xs ! j) = Inr (m', r') \<Longrightarrow> r < r'"
      by (auto simp: is_best_fold_def)
    show ?thesis
    proof (cases "rx < r")
      case True
      have "is_best_fold run (xs @ [x]) (length xs) mx rx"
        unfolding is_best_fold_def
      proof (intro conjI allI impI)
        show "length xs < length (xs @ [x])" by simp
        show "run ((xs @ [x]) ! length xs) = Inr (mx, rx)" using x by simp
      next
        fix j m' r'
        assume j: "j < length (xs @ [x])" and rj: "run ((xs @ [x]) ! j) = Inr (m', r')"
        show "rx \<le> r'"
        proof (cases "j < length xs")
          case True
          with rj have "run (xs ! j) = Inr (m', r')" by (simp add: nth_append)
          from le [OF True this] \<open>rx < r\<close> show ?thesis by simp
        next
          case False
          with j have "j = length xs" by simp
          with rj x show ?thesis by simp
        qed
      next
        fix j m' r'
        assume j: "j < length xs" and rj: "run ((xs @ [x]) ! j) = Inr (m', r')"
        then have "run (xs ! j) = Inr (m', r')" by (simp add: nth_append)
        from le [OF j this] \<open>rx < r\<close> show "rx < r'" by simp
      qed
      moreover have "cv_loop run (xs @ [x]) 0 [] None None
          = Inr (fm @ [\<lparr>fold_index = length xs, rmse = rx, fold_best_iteration = best_iteration mx\<rparr>],
                 Some mx, Some rx)"
        using run_xs x b True by (simp add: cv_loop_append)
      ultimately show ?thesis
        using len by auto
    next
      case False
      have "is_best_fold run (xs @ [x]) k m r"
        unfolding is_best_fold_def
      proof (intro conjI allI impI)
        show "k < length (xs @ [x])" using k by simp
        show "run ((xs @ [x]) ! k) = Inr (m, r)" using k rk by (simp add: nth_append)
      next
        fix j m' r'
        assume j: "j < length (xs @ [x])" and rj: "run ((xs @ [x]) ! j) = Inr (m', r')"
        show "r \<le> r'"
        proof (cases "j < length xs")
          case True
          with rj have "run (xs ! j) = Inr (m', r')" by (simp add: nth_append)
          from le [OF True this] show ?thesis .
        next
          case F: False
          with j have "j = length xs" by simp
          with rj x False show ?thesis by simp
        qed
      next
        fix j m' r'
        assume j: "j < k" and rj: "run ((xs @ [x]) ! j) = Inr (m', r')"
        with k have "run (xs ! j) = Inr (m', r')" by (simp add: nth_append)
        from lt [OF j this] show "r < r'" .
      qed
      moreover have "cv_loop run (xs @ [x]) 0 [] None None
          = Inr (fm @ [\<lparr>fold_index = length xs, rmse = rx, fold_best_iteration = best_iteration mx\<rparr>],
                 bm, bs)"
        using run_xs x b False by (simp add: cv_loop_append)
      ultimately show ?thesis
        using len b by auto
    qed
  qed
qed

lemma iloc_in_range: "list_all (\<lambda>i. i < length xs) idx \<Longrightarrow> iloc xs idx = Inr (rows_at xs idx)"
  by (simp add: iloc_def rows_at_def)

lemma squared_error_sum:
  fixes ys ps :: "real list"
  assumes "length ps = length ys"
  shows "sum_list (map (\<lambda>(a, b). (a - b)\<^sup>2) (zip ys ps)) = (\<Sum>i < length ys. (ys ! i - ps ! i)\<^sup>2)"
proof -
  have "sum_list (map (\<lambda>(a, b). (a - b)\<^sup>2) (zip ys ps))
      = (\<Sum>i = 0..<length ys. map (\<lambda>(a, b). (a - b)\<^sup>2) (zip ys ps) ! i)"
    using assms by (simp add: sum_list_sum_nth)
  also have "\<dots> = (\<Sum>i = 0..<length ys. (ys ! i - ps ! i)\<^sup>2)"
    using assms by (intro sum.cong) simp_all
  finally show ?thesis
    by (simp add: atLeast0LessThan)
qed

lemma run_fold_well_formed:
  assumes "fold_well_formed env params X y split"
  shows "\<exists>r. run_fold env params X y split = Inr (fold_model env params X y split, r)
      \<and> held_out_rmse (fold_model env params X y split) X y split r"
proof -
  let ?m = "fold_model env params X y split"
  from assms obtain y_pred where len: "length y = length X"
    and train: "list_all (\<lambda>i. i < length X) (fst split)"
    and val: "list_all (\<lambda>i. i < length X) (snd split)"
    and ne: "snd split \<noteq> []"
    and pred: "predict ?m (rows_at X (snd split)) = Inr y_pred"
    and plen: "length y_pred = length (snd split)"
    by (auto simp: fold_well_formed_def)
  let ?r = "sqrt ((\<Sum>i < length (snd split). (y ! (snd split ! i) - y_pred ! i)\<^sup>2)
      / real (length (snd split)))"
  have ilocs: "iloc X (fst split) = Inr (rows_at X (fst split))"
    "iloc X (snd split) = Inr (rows_at X (snd split))"
    "iloc y (fst split) = Inr (rows_at y (fst split))"
    "iloc y (snd split) = Inr (rows_at y (snd split))"
    using train val len by (simp_all add: iloc_in_range)
  have "sum_list (map (\<lambda>(a, b). (a - b)\<^sup>2) (zip (rows_at y (snd split)) y_pred))
      = (\<Sum>i < length (rows_at y (snd split)). (rows_at y (snd split) ! i - y_pred ! i)\<^sup>2)"
    using plen by (intro squared_error_sum) (simp add: rows_at_def)
  also have "\<dots> = (\<Sum>i < length (snd split). (y ! (snd split ! i) - y_pred ! i)\<^sup>2)"
    by (simp add: rows_at_def)
  finally have "mean_squared_error (rows_at y (snd split)) y_pred
      = Inr ((\<Sum>i < length (snd split). (y ! (snd split ! i) - y_pred ! i)\<^sup>2)
          / real (length (snd split)))"
    using plen ne by (simp add: mean_squared_error_def rows_at_def)
  with ilocs pred have "run_fold env params X y split = Inr (?m, ?r)"
    by (simp add: run_fold_def fold_model_def Let_def)
  moreover have "held_out_rmse ?m X y split ?r"
    using pred plen by (auto simp: held_out_rmse_def)
  ultimately show ?thesis
    by blast
qed

lemma held_out_rmse_unique:
  "held_out_rmse m X y split r \<Longrightarrow> held_out_rmse m X y split r' \<Longrightarrow> r = r'"
  by (auto simp: held_out_rmse_def)

text \<open>
  Claim C8: when the splitter yields at least one fold and every fold is well formed,
  cross-validated training returns a model, and that model is the one trained in the
  fold whose model has the lowest held-out validation RMSE of all folds (the earliest
  such fold), which is also the reported best RMSE; it is not simply the model of the
  last fold.
\<close>

theorem train_correction_model_selects_best_fold:
  assumes "tscv_split env n_splits (length X) = Inr splits" and "splits \<noteq> []"
    and "\<forall>s \<in> set splits. fold_well_formed env (params_or_default params_opt) X y s"
  shows "\<exists>k r metrics. k < length splits
      \<and> train_correction_model env X y params_opt n_splits
          = Inr (Some (fold_model env (params_or_default params_opt) X y (splits ! k)), metrics)
      \<and> held_out_rmse (fold_model env (params_or_default params_opt) X y (splits ! k))
           X y (splits ! k) r
      \<and> (\<forall>j < length splits. \<forall>r'.
            held_out_rmse (fold_model env (params_or_default params_opt) X y (splits ! j))
              X y (splits ! j) r' \<longrightarrow> r \<le> r')
      \<and> (\<forall>j < k. \<forall>r'.
            held_out_rmse (fold_model env (params_or_default params_opt) X y (splits ! j))
              X y (splits ! j) r' \<longrightarrow> r < r')
      \<and> best_rmse metrics = Some r
      \<and> length (cv_folds metrics) = length splits"
proof -
  let ?p = "params_or_default params_opt"
  let ?run = "run_fold env ?p X y"
  have wf: "fold_well_formed env ?p X y (splits ! j)" if "j < length splits" for j
    using assms(3) that by simp
  have ok: "\<forall>s \<in> set splits. \<exists>m r. ?run s = Inr (m, r)"
    using assms(3) run_fold_well_formed by blast
  from cv_loop_invariant [OF ok] assms(2)
  obtain fm k m r where loop: "cv_loop ?run splits 0 [] None None = Inr (fm, Some m, Some r)"
    and len: "length fm = length splits"
    and best: "is_best_fold ?run splits k m r"
    by blast
  from best have k: "k < length splits" and rk: "?run (splits ! k) = Inr (m, r)"
    and le: "\<And>j m' r'. j < length splits \<Longrightarrow> ?run (splits ! j) = Inr (m', r') \<Longrightarrow> r \<le> r'"
    and lt: "\<And>j m' r'. j < k \<Longrightarrow> ?run (splits ! j) = Inr (m', r') \<Longrightarrow> r < r'"
    by (auto simp: is_best_fold_def)
  from run_fold_well_formed [OF wf [OF k]] rk
  have m: "m = fold_model env ?p X y (splits ! k)"
    and hk: "held_out_rmse (fold_model env ?p X y (splits ! k)) X y (splits ! k) r"
    by auto
  have lower: "r \<le> r'"
    if j: "j < length splits"
      and h: "held_out_rmse (fold_model env ?p X y (splits ! j)) X y (splits ! j) r'" for j r'
  proof -
    from run_fold_well_formed [OF wf [OF j]] obtain rj
      where "?run (splits ! j) = Inr (fold_model env ?p X y (splits ! j), rj)"
        and "held_out_rmse (fold_model env ?p X y (splits ! j)) X y (splits ! j) rj"
      by blast
    with h le [OF j] show ?thesis
      by (auto dest: held_out_rmse_unique)
  qed
  have strict: "r < r'"
    if j: "j < k"
      and h: "held_out_rmse (fold_model env ?p X y (splits ! j)) X y (splits ! j) r'" for j r'
  proof -
    from j k have j': "j < length splits"
      by simp
    from run_fold_well_formed [OF wf [OF j']] obtain rj
      where "?run (splits ! j) = Inr (fold_model env ?p X y (splits ! j), rj)"
        and "held_out_rmse (fold_model env ?p X y (splits ! j)) X y (splits ! j) rj"
      by blast
    with h lt [OF j] show ?thesis
      by (auto dest: held_out_rmse_unique)
  qed
  have result: "train_correction_model env X y params_opt n_splits
      = Inr (Some (fold_model env ?p X y (splits ! k)),
             \<lparr>cv_folds = fm,
              mean_rmse = (if fm = [] then None else Some (np_mean (map rmse fm))),
              std_rmse = (if fm = [] then None else Some (np_std (map rmse fm))),
              best_rmse = Some r\<rparr>)"
    using assms(1) loop m by (simp add: train_correction_model_def Let_def)
  show ?thesis
    using k result hk lower strict len
    by (intro exI [of _ k] exI [of _ r] exI conjI) auto
qed

lemma example_folds:
  "run_fold example_env p [[0], [1], [2], [3]] [0, 1, 5, 5] ([0], [1])
     = Inr (example_train p [[0]] [0] [[1]] [1], 1)"
  "run_fold example_env p [[0], [1], [2], [3]] [0, 1, 5, 5] ([0, 1], [2])
     = Inr (example_train p [[0], [1]] [0, 1] [[2]] [5], 9 / 2)"
  "run_fold example_env p [[0], [1], [2], [3]] [0, 1, 5, 5] ([0, 1, 2], [3])
     = Inr (example_train p [[0], [1], [2]] [0, 1, 5] [[3]] [5], 3)"
proof -
  have s1: "sqrt (81 / 4) = 9 / 2"
    by (rule real_sqrt_unique) (simp_all add: power2_eq_square)
  have s2: "sqrt 9 = 3"
    by (rule real_sqrt_unique) simp_all
  show "run_fold example_env p [[0], [1], [2], [3]] [0, 1, 5, 5] ([0], [1])
     = Inr (example_train p [[0]] [0] [[1]] [1], 1)"
    by (simp add: run_fold_def iloc_def example_env_def example_train_def mean_squared_error_def
        np_mean_def)
  show "run_fold example_env p [[0], [1], [2], [3]] [0, 1, 5, 5] ([0, 1], [2])
     = Inr (example_train p [[0], [1]] [0, 1] [[2]] [5], 9 / 2)"
    by (simp add: run_fold_def iloc_def example_env_def example_train_def mean_squared_error_def
        np_mean_def power2_eq_square s1)
  show "run_fold example_env p [[0], [1], [2], [3]] [0, 1, 5, 5] ([0, 1, 2], [3])
     = Inr (example_train p [[0], [1], [2]] [0, 1, 5] [[3]] [5], 3)"
    by (simp add: run_fold_def iloc_def example_env_def example_train_def mean_squared_error_def
        np_mean_def power2_eq_square s2)
qed

lemma example_fold_models:
  "fold_model example_env p [[0], [1], [2], [3]] [0, 1, 5, 5] ([0], [1])
     = example_train p [[0]] [0] [[1]] [1]"
  "fold_model example_env p [[0], [1], [2], [3]] [0, 1, 5, 5] ([0, 1], [2])
     = example_train p [[0], [1]] [0, 1] [[2]] [5]"
  "fold_model example_env p [[0], [1], [2], [3]] [0, 1, 5, 5] ([0, 1, 2], [3])
     = example_train p [[0], [1], [2]] [0, 1, 5] [[3]] [5]"
  by (simp_all add: fold_model_def rows_at_def example_env_def)

lemma example_folds_well_formed:
  "fold_well_formed example_env p [[0], [1], [2], [3]] [0, 1, 5, 5] ([0], [1])"
  "fold_well_formed example_env p [[0], [1], [2], [3]] [0, 1, 5, 5] ([0, 1], [2])"
  "fold_well_formed example_env p [[0], [1], [2], [3]] [0, 1, 5, 5] ([0, 1, 2], [3])"
  by (simp_all add: fold_well_formed_def example_fold_models example_train_def rows_at_def
      del: One_nat_def)

theorem train_correction_model_selects_best_fold_witness:
  "tscv_split example_env 3 (length [[0], [1], [2], [3 :: real]])
     = Inr [([0], [1]), ([0, 1], [2]), ([0, 1, 2], [3])]
   \<and> [([0 :: nat], [1 :: nat]), ([0, 1], [2]), ([0, 1, 2], [3])] \<noteq> []
   \<and> list_all (fold_well_formed example_env (params_or_default None)
          [[0], [1], [2], [3]] [0, 1, 5, 5])
        [([0], [1]), ([0, 1], [2]), ([0, 1, 2], [3])]
   \<and> (\<exists>k r metrics. k < length [([0 :: nat], [1 :: nat]), ([0, 1], [2]), ([0, 1, 2], [3])]
        \<and> train_correction_model example_env [[0], [1], [2], [3]] [0, 1, 5, 5] None 3
          = Inr (Some (fold_model example_env (params_or_default None)
                   [[0], [1], [2], [3]] [0, 1, 5, 5]
                   ([([0], [1]), ([0, 1], [2]), ([0, 1, 2], [3])] ! k)), metrics)
        \<and> held_out_rmse (fold_model example_env (params_or_default None)
                   [[0], [1], [2], [3]] [0, 1, 5, 5]
                   ([([0], [1]), ([0, 1], [2]), ([0, 1, 2], [3])] ! k))
             [[0], [1], [2], [3]] [0, 1, 5, 5]
             ([([0], [1]), ([0, 1], [2]), ([0, 1, 2], [3])] ! k) r
        \<and> best_rmse metrics = Some r)
   \<and> map_option (\<lambda>res. (fst res, best_rmse (snd res)))
        (case train_correction_model example_env [[0], [1], [2], [3]] [0, 1, 5, 5] None 3 of
           Inl e \<Rightarrow> None | Inr res \<Rightarrow> Some res)
      = Some (Some (example_train (params_or_default None) [[0]] [0] [[1]] [1]), Some 1)"
proof -
  let ?splits = "[([0 :: nat], [1 :: nat]), ([0, 1], [2]), ([0, 1, 2], [3])]"
  let ?X = "[[0], [1], [2], [3 :: real]]"
  let ?y = "[0, 1, 5, 5 :: real]"
  have split: "tscv_split example_env 3 (length ?X) = Inr ?splits"
    by (simp add: example_env_def example_split_def)
  have ne: "?splits \<noteq> []"
    by simp
  have ok: "\<forall>s \<in> set ?splits. fold_well_formed example_env (params_or_default None) ?X ?y s"
  proof
    fix s assume "s \<in> set ?splits"
    then consider "s = ([0], [1])" | "s = ([0, 1], [2])" | "s = ([0, 1, 2], [3])"
      by (auto simp del: One_nat_def)
    then show "fold_well_formed example_env (params_or_default None) ?X ?y s"
      using example_folds_well_formed [of "params_or_default None"] by cases simp_all
  qed
  have eval: "map_option (\<lambda>res. (fst res, best_rmse (snd res)))
        (case train_correction_model example_env ?X ?y None 3 of
           Inl e \<Rightarrow> None | Inr res \<Rightarrow> Some res)
      = Some (Some (example_train (params_or_default None) [[0]] [0] [[1]] [1]), Some 1)"
    using split by (simp add: train_correction_model_def Let_def example_folds del: One_nat_def)
  from ok have ok': "list_all (fold_well_formed example_env (params_or_default None) ?X ?y) ?splits"
    by (simp only: list_all_iff)
  from train_correction_model_selects_best_fold [OF split ne ok]
  have main: "\<exists>k r metrics. k < length ?splits
        \<and> train_correction_model example_env ?X ?y None 3
          = Inr (Some (fold_model example_env (params_or_default None) ?X ?y (?splits ! k)), metrics)
        \<and> held_out_rmse (fold_model example_env (params_or_default None) ?X ?y (?splits ! k))
             ?X ?y (?splits ! k) r
        \<and> best_rmse metrics = Some r"
    by blast
  from split ne ok' main eval show ?thesis
    by (intro conjI)
qed

text \<open>
  Claim C6: when the training files hold fewer resolved markets than the configured
  minimum, the training operation prints the reason (the number of markets and the
  minimum), returns no model identifier, and leaves the artifact files and the registry
  as they were. With the default configuration the minimum is 50.
\<close>

theorem train_and_save_refuses_below_minimum:
  assumes "training_files env = Some (markets_df, posts_df)"
    and "length markets_df < min_resolved_markets_gbdt cfg"
  shows "train_and_save cfg env w version
       = Inr (None, w\<lparr>printed := printed w @
           [TrainingBanner,
            NotEnoughMarkets (length markets_df) (min_resolved_markets_gbdt cfg),
            WaitingForData]\<rparr>)
     \<and> min_resolved_markets_gbdt config = 50"
  using assms by (simp add: train_and_save_def print_def config_def)

theorem train_and_save_refuses_below_minimum_witness:
  "training_files example_env = Some (replicate 40 example_market, empty_frame)
   \<and> length (replicate 40 example_market) < min_resolved_markets_gbdt config
   \<and> train_and_save config example_env empty_world None
       = Inr (None, \<lparr>files = Map.empty, model_registry = [],
                     printed = [TrainingBanner, NotEnoughMarkets 40 50, WaitingForData]\<rparr>)"
proof -
  have f: "training_files example_env = Some (replicate 40 example_market, empty_frame)"
    by (simp add: example_env_def)
  have l: "length (replicate 40 example_market) < min_resolved_markets_gbdt config"
    by (simp add: config_def)
  from train_and_save_refuses_below_minimum [OF f l, of empty_world None]
  have "train_and_save config example_env empty_world None
       = Inr (None, \<lparr>files = Map.empty, model_registry = [],
                     printed = [TrainingBanner, NotEnoughMarkets 40 50, WaitingForData]\<rparr>)"
    by (simp add: empty_world_def config_def)
  with f l show ?thesis
    by (intro conjI)
qed



end
